theory Spec2Isabelle
  imports Main "HOL-Library.Sublist"
begin

section \<open>Strings of the host language\<close>

text \<open>
  The component \<^verbatim>\<open>src/lib/components/common/Collapsible.svelte\<close> works on
  JavaScript strings. They are modelled as \<^typ>\<open>string\<close>; the two string methods the
  component calls are written out as recursive functions.
\<close>

text \<open>\<^verbatim>\<open>s.startsWith(p)\<close>\<close>

fun startsWith :: "string \<Rightarrow> string \<Rightarrow> bool" where
  "startsWith s [] = True"
| "startsWith [] (p # ps) = False"
| "startsWith (c # cs) (p # ps) = (c = p \<and> startsWith cs ps)"

text \<open>\<^verbatim>\<open>s.includes(p)\<close>\<close>

fun includes_str :: "string \<Rightarrow> string \<Rightarrow> bool" where
  "includes_str [] p = (p = [])"
| "includes_str (c # cs) p = (startsWith (c # cs) p \<or> includes_str cs p)"

section \<open>URL classifier\<close>

definition isDataUrl :: "string \<Rightarrow> bool" where
  "isDataUrl url = startsWith url ''data:''"

definition isAbsoluteUrl :: "string \<Rightarrow> bool" where
  "isAbsoluteUrl url = (startsWith url ''http://'' \<or> startsWith url ''https://'')"

text \<open>
  \<^verbatim>\<open>dataUrl.match(/^data:([^;]+)/)\<close>: the group is the longest run of characters
  other than \<open>;\<close> after the prefix, and the match fails when that run is empty.
  The function returns the group, or the empty string when there is no match.
\<close>

definition getDataUrlMimeType :: "string \<Rightarrow> string" where
  "getDataUrlMimeType dataUrl =
     (if startsWith dataUrl ''data:''
      then (let g = takeWhile (\<lambda>c. c \<noteq> CHR '';'') (drop 5 dataUrl)
            in if g = [] then [] else g)
      else [])"

text \<open>
  \<^verbatim>\<open>getFullUrl\<close>; the constant \<^verbatim>\<open>WEBUI_BASE_URL\<close> of \<^verbatim>\<open>$lib/constants\<close> is
  a parameter.
\<close>

definition getFullUrl :: "string \<Rightarrow> string \<Rightarrow> string" where
  "getFullUrl WEBUI_BASE_URL url =
     (if isDataUrl url \<or> isAbsoluteUrl url then url
      else WEBUI_BASE_URL @ (if startsWith url ''/'' then url else ''/'' @ url))"

section \<open>Presentation dispatcher\<close>

text \<open>
  The body of the \<^verbatim>\<open>{#each files ?? [] as file, idx}\<close> block (lines 332 to 405)
  is one \<^verbatim>\<open>{#if} ... {:else if} ...\<close> chain. Each arm is a constructor of
  \<open>branch\<close>; the two arms that test \<^verbatim>\<open>isDataUrl(file)\<close> inside have two
  constructors each, and an item for which no arm fires renders nothing.
\<close>

datatype branch =
    LoadingPlaceholder
  | ImageRenderer
  | AudioPlayer
  | VideoPlayer
  | DocumentViewer
  | TextInline
  | TextLink
  | GenericInline
  | GenericLink
  | RenderNothing

definition dispatch :: "string \<Rightarrow> string \<Rightarrow> bool \<Rightarrow> branch" where
  "dispatch file contentType isLoading =
     (if isLoading then LoadingPlaceholder
      else if startsWith contentType ''image/'' then ImageRenderer
      else if startsWith contentType ''audio/'' then AudioPlayer
      else if startsWith contentType ''video/'' then VideoPlayer
      else if includes_str contentType ''pdf'' then DocumentViewer
      else if startsWith contentType ''text/'' \<or> includes_str contentType ''json''
                \<or> includes_str contentType ''xml''
           then (if isDataUrl file then TextInline else TextLink)
      else if file \<noteq> [] then (if isDataUrl file then GenericInline else GenericLink)
      else RenderNothing)"

text \<open>
  The two \<^verbatim>\<open>{@const}\<close> lines that feed the chain:
  \<^verbatim>\<open>fileTypes[idx] || ''\<close> and \<^verbatim>\<open>loadingFileTypes[idx] || false\<close>.
\<close>

definition render_item ::
  "(nat \<rightharpoonup> string) \<Rightarrow> (nat \<rightharpoonup> bool) \<Rightarrow> nat \<Rightarrow> string \<Rightarrow> branch" where
  "render_item fileTypes loadingFileTypes idx file =
     dispatch file
       (case fileTypes idx of None \<Rightarrow> [] | Some t \<Rightarrow> t)
       (case loadingFileTypes idx of None \<Rightarrow> False | Some b \<Rightarrow> b)"

section \<open>JSON values and the host's conversions\<close>

text \<open>
  \<^verbatim>\<open>parseJSONString\<close> and \<^verbatim>\<open>formatJSONString\<close> call \<^verbatim>\<open>JSON.parse\<close>,
  \<^verbatim>\<open>JSON.stringify\<close>, \<^verbatim>\<open>String\<close> and \<^verbatim>\<open>typeof\<close> of the host. The values
  \<^verbatim>\<open>JSON.parse\<close> produces are the type \<open>json\<close>; an object keeps its members in
  the host's enumeration order. Numbers are floating point in the host: their type is
  the parameter \<open>'n\<close>, and what the host does with a number is a field of
  \<open>runtime\<close>: reading a JSON literal, printing, finiteness, truthiness, the number of
  a loop counter, the conversion of a string to a number, and the comparison
  \<^verbatim>\<open>i < n\<close> of a loop counter with a number (false when \<^verbatim>\<open>n\<close> is NaN). The
  way a \<^verbatim>\<open>\uXXXX\<close> escape is held in a string is a field as well. Everything else
  of the JSON grammar and of the conversions is written out.
\<close>

datatype 'n json =
    JNull
  | JBool bool
  | JNum 'n
  | JStr string
  | JArr "'n json list"
  | JObj "(string \<times> 'n json) list"

record 'n runtime =
  num_of_literal :: "string \<Rightarrow> 'n"
  num_to_string :: "'n \<Rightarrow> string"
  num_is_finite :: "'n \<Rightarrow> bool"
  num_truthy :: "'n \<Rightarrow> bool"
  num_of_nat :: "nat \<Rightarrow> 'n"
  string_to_num :: "string \<Rightarrow> 'n"
  nat_less_num :: "nat \<Rightarrow> 'n \<Rightarrow> bool"
  utf16_escape :: "nat \<Rightarrow> string"

subsection \<open>Tokens\<close>

datatype token =
    TLBrace | TRBrace | TLBrack | TRBrack | TColon | TComma
  | TStr string | TNum string | TTrue | TFalse | TNull

definition is_ws :: "char \<Rightarrow> bool" where
  "is_ws c = (c = CHR '' '' \<or> c = CHR 0x09 \<or> c = CHR 0x0A \<or> c = CHR 0x0D)"

definition is_digit :: "char \<Rightarrow> bool" where
  "is_digit c = (c \<in> set ''0123456789'')"

definition digit_val :: "char \<Rightarrow> nat" where
  "digit_val c = of_char c - 48"

definition hex_val :: "char \<Rightarrow> nat option" where
  "hex_val c =
     (if is_digit c then Some (digit_val c)
      else if c \<in> set ''abcdef'' then Some (of_char c - 87)
      else if c \<in> set ''ABCDEF'' then Some (of_char c - 55)
      else None)"

definition hex4 :: "char \<Rightarrow> char \<Rightarrow> char \<Rightarrow> char \<Rightarrow> nat option" where
  "hex4 a b c d =
     (case (hex_val a, hex_val b, hex_val c, hex_val d) of
        (Some w, Some x, Some y, Some z) \<Rightarrow> Some (((w * 16 + x) * 16 + y) * 16 + z)
      | _ \<Rightarrow> None)"

definition simple_escape :: "char \<Rightarrow> char option" where
  "simple_escape e =
     (if e = CHR 0x22 then Some (CHR 0x22)
      else if e = CHR 0x5C then Some (CHR 0x5C)
      else if e = CHR ''/'' then Some (CHR ''/'')
      else if e = CHR ''b'' then Some (CHR 0x08)
      else if e = CHR ''f'' then Some (CHR 0x0C)
      else if e = CHR ''n'' then Some (CHR 0x0A)
      else if e = CHR ''r'' then Some (CHR 0x0D)
      else if e = CHR ''t'' then Some (CHR 0x09)
      else None)"

text \<open>
  The characters of a string literal after its opening quote, up to the closing one;
  the result is the string's value and the rest of the input. A raw control character
  and an unknown escape are syntax errors, as is the end of input.
\<close>

fun scan_string :: "'n runtime \<Rightarrow> string \<Rightarrow> string \<Rightarrow> (string \<times> string) option" where
  "scan_string rt acc [] = None"
| "scan_string rt acc (c # cs) =
     (if c = CHR 0x22 then Some (rev acc, cs)
      else if c = CHR 0x5C then
        (case cs of
           [] \<Rightarrow> None
         | e # es \<Rightarrow>
             if e = CHR ''u'' then
               (case es of
                  h1 # h2 # h3 # h4 # r \<Rightarrow>
                    (case hex4 h1 h2 h3 h4 of
                       None \<Rightarrow> None
                     | Some n \<Rightarrow> scan_string rt (rev (utf16_escape rt n) @ acc) r)
                | _ \<Rightarrow> None)
             else
               (case simple_escape e of
                  None \<Rightarrow> None
                | Some ch \<Rightarrow> scan_string rt (ch # acc) es))
      else if (of_char c :: nat) < 32 then None
      else scan_string rt (c # acc) cs)"

text \<open>
  A number literal at the head of the input:
  \<^verbatim>\<open>-? (0 | [1-9][0-9]*) (. [0-9]+)? ([eE] [+-]? [0-9]+)?\<close>.
\<close>

definition scan_int :: "string \<Rightarrow> (string \<times> string) option" where
  "scan_int s =
     (case s of
        [] \<Rightarrow> None
      | c # r \<Rightarrow>
          if c = CHR ''0'' then Some ([c], r)
          else if is_digit c then Some (c # takeWhile is_digit r, dropWhile is_digit r)
          else None)"

definition scan_frac :: "string \<Rightarrow> (string \<times> string) option" where
  "scan_frac s =
     (case s of
        c # r \<Rightarrow>
          if c = CHR ''.'' then
            (if takeWhile is_digit r = [] then None
             else Some (c # takeWhile is_digit r, dropWhile is_digit r))
          else Some ([], s)
      | [] \<Rightarrow> Some ([], s))"

definition scan_exp :: "string \<Rightarrow> (string \<times> string) option" where
  "scan_exp s =
     (case s of
        c # r \<Rightarrow>
          if c = CHR ''e'' \<or> c = CHR ''E'' then
            (let (sg, r') = (case r of
                               d # r2 \<Rightarrow> if d = CHR ''+'' \<or> d = CHR ''-'' then ([d], r2)
                                          else ([], r)
                             | [] \<Rightarrow> ([], r))
             in if takeWhile is_digit r' = [] then None
                else Some (c # sg @ takeWhile is_digit r', dropWhile is_digit r'))
          else Some ([], s)
      | [] \<Rightarrow> Some ([], s))"

definition scan_number :: "string \<Rightarrow> (string \<times> string) option" where
  "scan_number s =
     (let (sg, s1) = (case s of
                        c # r \<Rightarrow> if c = CHR ''-'' then ([c], r) else ([], s)
                      | [] \<Rightarrow> ([], s))
      in case scan_int s1 of
           None \<Rightarrow> None
         | Some (i, s2) \<Rightarrow>
             (case scan_frac s2 of
                None \<Rightarrow> None
              | Some (f, s3) \<Rightarrow>
                  (case scan_exp s3 of
                     None \<Rightarrow> None
                   | Some (e, s4) \<Rightarrow> Some (sg @ i @ f @ e, s4))))"

lemma scan_string_length:
  "scan_string rt acc s = Some (v, r) \<Longrightarrow> length r < length s"
proof (induction rt acc s rule: scan_string.induct)
  case (1 rt acc)
  then show ?case by simp
next
  case (2 rt acc c cs)
  show ?case
  proof (cases "c = CHR 0x22")
    case True
    with 2(4) show ?thesis by simp
  next
    case nq: False
    show ?thesis
    proof (cases "c = CHR 0x5C")
      case False
      with nq 2(3) 2(4) show ?thesis
        by (auto split: if_splits)
    next
      case True
      show ?thesis
      proof (cases cs)
        case Nil
        with True nq 2(4) show ?thesis by simp
      next
        case (Cons e es)
        show ?thesis
        proof (cases "e = CHR ''u''")
          case False
          with Cons True nq 2(4) obtain ch where
            ch: "simple_escape e = Some ch" and rec: "scan_string rt (ch # acc) es = Some (v, r)"
            by (auto split: option.splits)
          from 2(2) [OF nq True Cons False ch rec] Cons show ?thesis by simp
        next
          case u: True
          from u Cons True nq 2(4) obtain h1 h2 h3 h4 r' n where
            es: "es = h1 # h2 # h3 # h4 # r'" and h: "hex4 h1 h2 h3 h4 = Some n"
            and rec: "scan_string rt (rev (utf16_escape rt n) @ acc) r' = Some (v, r)"
            by (auto split: list.splits option.splits)
          have "length r < length r'"
            using 2(1) [of e es h1 "h2 # h3 # h4 # r'" h2 "h3 # h4 # r'" h3 "h4 # r'" h4 r' n]
              nq True Cons u es h rec by simp
          with es Cons show ?thesis by simp
        qed
      qed
    qed
  qed
qed

lemma scan_int_length: "scan_int s = Some (i, r) \<Longrightarrow> length r < length s"
  by (auto simp: scan_int_def le_imp_less_Suc length_dropWhile_le
      split: list.splits if_splits)

lemma scan_frac_length: "scan_frac s = Some (f, r) \<Longrightarrow> length r \<le> length s"
  by (auto simp: scan_frac_def le_SucI length_dropWhile_le split: list.splits if_splits)

lemma scan_exp_length: "scan_exp s = Some (e, r) \<Longrightarrow> length r \<le> length s"
proof -
  have d: "length (dropWhile is_digit x) \<le> length x" for x
    by (rule length_dropWhile_le)
  assume "scan_exp s = Some (e, r)"
  then show ?thesis
    using d by (auto simp: scan_exp_def le_SucI Let_def
        split: list.splits if_splits prod.splits intro: le_trans)
qed

lemma scan_number_length:
  assumes "scan_number s = Some (l, r)"
  shows "length r < length s"
proof -
  obtain sg s1 where s1: "(case s of c # r \<Rightarrow> if c = CHR ''-'' then ([c], r) else ([], s)
                      | [] \<Rightarrow> ([], s)) = (sg, s1)"
    by (cases "(case s of c # r \<Rightarrow> if c = CHR ''-'' then ([c], r) else ([], s)
                      | [] \<Rightarrow> ([], s))") auto
  then have le: "length s1 \<le> length s"
    by (auto split: list.splits if_splits)
  from assms s1 obtain i s2 f s3 e where
    "scan_int s1 = Some (i, s2)" "scan_frac s2 = Some (f, s3)" "scan_exp s3 = Some (e, r)"
    by (auto simp: scan_number_def split: option.splits prod.splits)
  then have "length s2 < length s1" "length s3 \<le> length s2" "length r \<le> length s3"
    by (auto dest: scan_int_length scan_frac_length scan_exp_length)
  with le show ?thesis by linarith
qed

text \<open>The input as tokens, or \<open>None\<close> where the host raises a syntax error.\<close>

function tokens :: "'n runtime \<Rightarrow> string \<Rightarrow> token list option" where
  "tokens rt [] = Some []"
| "tokens rt (c # cs) =
     (if is_ws c then tokens rt cs
      else if c = CHR ''{'' then map_option ((#) TLBrace) (tokens rt cs)
      else if c = CHR ''}'' then map_option ((#) TRBrace) (tokens rt cs)
      else if c = CHR ''['' then map_option ((#) TLBrack) (tokens rt cs)
      else if c = CHR '']'' then map_option ((#) TRBrack) (tokens rt cs)
      else if c = CHR '':'' then map_option ((#) TColon) (tokens rt cs)
      else if c = CHR '','' then map_option ((#) TComma) (tokens rt cs)
      else if c = CHR 0x22 then
        (case scan_string rt [] cs of
           None \<Rightarrow> None
         | Some (v, r) \<Rightarrow> map_option ((#) (TStr v)) (tokens rt r))
      else if c = CHR ''-'' \<or> is_digit c then
        (case scan_number (c # cs) of
           None \<Rightarrow> None
         | Some (l, r) \<Rightarrow> map_option ((#) (TNum l)) (tokens rt r))
      else if startsWith (c # cs) ''true'' then map_option ((#) TTrue) (tokens rt (drop 3 cs))
      else if startsWith (c # cs) ''false'' then map_option ((#) TFalse) (tokens rt (drop 4 cs))
      else if startsWith (c # cs) ''null'' then map_option ((#) TNull) (tokens rt (drop 3 cs))
      else None)"
  by pat_completeness auto
termination
proof (relation "measure (\<lambda>(rt, s). length s)")
  fix rt :: "'n runtime" and c cs x2 x y
  assume "scan_string rt [] cs = Some x2" "(x, y) = x2"
  then have "length y < length cs"
    using scan_string_length [of rt "[]" cs x y] by simp
  then show "((rt, y), rt, c # cs) \<in> measure (\<lambda>(rt, s). length s)" by simp
next
  fix rt :: "'n runtime" and c cs x2 x y
  assume "scan_number (c # cs) = Some x2" "(x, y) = x2"
  then have "length y < length (c # cs)"
    using scan_number_length [of "c # cs" x y] by simp
  then show "((rt, y), rt, c # cs) \<in> measure (\<lambda>(rt, s). length s)" by simp
qed auto

subsection \<open>Objects in the host's member order\<close>

text \<open>
  A member whose key is a canonical array index (\<open>0\<close>, or digits without a leading
  zero, below \<open>2^32 - 1\<close>) is enumerated before the other members, in numeric order;
  the other members keep the order of their first insertion. Defining a key again
  replaces its value in place.
\<close>

definition dec_val :: "string \<Rightarrow> nat" where
  "dec_val ds = foldl (\<lambda>a c. 10 * a + digit_val c) 0 ds"

definition is_index :: "string \<Rightarrow> bool" where
  "is_index k =
     (k \<noteq> [] \<and> list_all is_digit k \<and> (k = ''0'' \<or> hd k \<noteq> CHR ''0'')
      \<and> dec_val k < 4294967295)"

fun ins_index :: "string \<Rightarrow> 'n json \<Rightarrow> (string \<times> 'n json) list \<Rightarrow> (string \<times> 'n json) list" where
  "ins_index k v [] = [(k, v)]"
| "ins_index k v ((k', v') # r) =
     (if is_index k' \<and> dec_val k' < dec_val k then (k', v') # ins_index k v r
      else (k, v) # (k', v') # r)"

definition obj_put :: "string \<Rightarrow> 'n json \<Rightarrow> (string \<times> 'n json) list \<Rightarrow> (string \<times> 'n json) list" where
  "obj_put k v ps =
     (if k \<in> fst ` set ps then map (\<lambda>(k', v'). if k' = k then (k', v) else (k', v')) ps
      else if is_index k then ins_index k v ps
      else ps @ [(k, v)])"

subsection \<open>\<^verbatim>\<open>JSON.parse\<close>\<close>

text \<open>
  The parser reads the tokens from left to right with a stack of the arrays and
  objects that are open. \<open>InArr\<close> holds the elements read so far, last first;
  \<open>InKey\<close> is an object whose next value belongs to the given key.
\<close>

datatype 'n frame =
    InArr "'n json list"
  | InObj "(string \<times> 'n json) list"
  | InKey "(string \<times> 'n json) list" string

datatype 'n pmode = MValue | MFirstElem | MFirstKey | MKey | MColon | MSep | MDone "'n json"

fun complete :: "'n json \<Rightarrow> 'n frame list \<Rightarrow> ('n pmode \<times> 'n frame list) option" where
  "complete v [] = Some (MDone v, [])"
| "complete v (InArr items # st) = Some (MSep, InArr (v # items) # st)"
| "complete v (InKey ps k # st) = Some (MSep, InObj (obj_put k v ps) # st)"
| "complete v (InObj ps # st) = None"

fun scalar :: "'n runtime \<Rightarrow> token \<Rightarrow> 'n json option" where
  "scalar rt (TStr s) = Some (JStr s)"
| "scalar rt (TNum l) = Some (JNum (num_of_literal rt l))"
| "scalar rt TTrue = Some (JBool True)"
| "scalar rt TFalse = Some (JBool False)"
| "scalar rt TNull = Some JNull"
| "scalar rt _ = None"

fun value_start ::
  "'n runtime \<Rightarrow> bool \<Rightarrow> token \<Rightarrow> 'n frame list \<Rightarrow> ('n pmode \<times> 'n frame list) option" where
  "value_start rt first TLBrack st = Some (MFirstElem, InArr [] # st)"
| "value_start rt first TLBrace st = Some (MFirstKey, InObj [] # st)"
| "value_start rt first TRBrack st =
     (case st of
        InArr [] # st' \<Rightarrow> if first then complete (JArr []) st' else None
      | _ \<Rightarrow> None)"
| "value_start rt first t st =
     (case scalar rt t of None \<Rightarrow> None | Some v \<Rightarrow> complete v st)"

fun pstep ::
  "'n runtime \<Rightarrow> token \<Rightarrow> 'n pmode \<times> 'n frame list \<Rightarrow> ('n pmode \<times> 'n frame list) option" where
  "pstep rt t (MValue, st) = value_start rt False t st"
| "pstep rt t (MFirstElem, st) = value_start rt True t st"
| "pstep rt t (MFirstKey, st) =
     (case (t, st) of
        (TStr k, InObj ps # st') \<Rightarrow> Some (MColon, InKey ps k # st')
      | (TRBrace, InObj ps # st') \<Rightarrow> complete (JObj ps) st'
      | _ \<Rightarrow> None)"
| "pstep rt t (MKey, st) =
     (case (t, st) of
        (TStr k, InObj ps # st') \<Rightarrow> Some (MColon, InKey ps k # st')
      | _ \<Rightarrow> None)"
| "pstep rt t (MColon, st) = (case t of TColon \<Rightarrow> Some (MValue, st) | _ \<Rightarrow> None)"
| "pstep rt t (MSep, st) =
     (case (t, st) of
        (TComma, InArr items # st') \<Rightarrow> Some (MValue, st)
      | (TRBrack, InArr items # st') \<Rightarrow> complete (JArr (rev items)) st'
      | (TComma, InObj ps # st') \<Rightarrow> Some (MKey, st)
      | (TRBrace, InObj ps # st') \<Rightarrow> complete (JObj ps) st'
      | _ \<Rightarrow> None)"
| "pstep rt t (MDone v, st) = None"

fun parse_tokens ::
  "'n runtime \<Rightarrow> token list \<Rightarrow> 'n pmode \<times> 'n frame list \<Rightarrow> 'n json option" where
  "parse_tokens rt [] (m, st) = (case (m, st) of (MDone v, []) \<Rightarrow> Some v | _ \<Rightarrow> None)"
| "parse_tokens rt (t # ts) (m, st) =
     (case pstep rt t (m, st) of None \<Rightarrow> None | Some s' \<Rightarrow> parse_tokens rt ts s')"

text \<open>\<^verbatim>\<open>JSON.parse(text)\<close> on a string; \<open>None\<close> is the SyntaxError.\<close>

definition JSON_parse :: "'n runtime \<Rightarrow> string \<Rightarrow> 'n json option" where
  "JSON_parse rt s =
     (case tokens rt s of None \<Rightarrow> None | Some ts \<Rightarrow> parse_tokens rt ts (MValue, []))"

subsection \<open>\<^verbatim>\<open>JSON.stringify\<close>\<close>

definition hex_char :: "nat \<Rightarrow> char" where
  "hex_char n = ''0123456789abcdef'' ! (n mod 16)"

definition esc :: "char \<Rightarrow> string" where
  "esc c =
     (if c = CHR 0x22 then [CHR 0x5C, CHR 0x22]
      else if c = CHR 0x5C then [CHR 0x5C, CHR 0x5C]
      else if c = CHR 0x08 then [CHR 0x5C, CHR ''b'']
      else if c = CHR 0x09 then [CHR 0x5C, CHR ''t'']
      else if c = CHR 0x0A then [CHR 0x5C, CHR ''n'']
      else if c = CHR 0x0C then [CHR 0x5C, CHR ''f'']
      else if c = CHR 0x0D then [CHR 0x5C, CHR ''r'']
      else if (of_char c :: nat) < 32
        then [CHR 0x5C, CHR ''u'', CHR ''0'', CHR ''0'',
              hex_char (of_char c div 16), hex_char (of_char c)]
      else [c])"

definition quote :: "string \<Rightarrow> string" where
  "quote s = CHR 0x22 # concat (map esc s) @ [CHR 0x22]"

fun join :: "string \<Rightarrow> string list \<Rightarrow> string" where
  "join sep [] = []"
| "join sep [x] = x"
| "join sep (x # y # ys) = x @ sep @ join sep (y # ys)"

text \<open>
  The brackets around the parts of a non-empty array or object: on one line when the
  gap is empty, otherwise one part per line, indented by the current indentation
  plus the gap.
\<close>

definition wrap :: "string \<Rightarrow> string \<Rightarrow> string \<Rightarrow> string \<Rightarrow> string list \<Rightarrow> string" where
  "wrap gap ind l r parts =
     (if gap = [] then l @ join '','' parts @ r
      else l @ [CHR 0x0A] @ ind @ gap @ join ('','' @ [CHR 0x0A] @ ind @ gap) parts
           @ [CHR 0x0A] @ ind @ r)"

fun ser :: "'n runtime \<Rightarrow> string \<Rightarrow> string \<Rightarrow> 'n json \<Rightarrow> string"
  and ser_elems :: "'n runtime \<Rightarrow> string \<Rightarrow> string \<Rightarrow> 'n json list \<Rightarrow> string list"
  and ser_members ::
    "'n runtime \<Rightarrow> string \<Rightarrow> string \<Rightarrow> (string \<times> 'n json) list \<Rightarrow> string list" where
  "ser rt gap ind JNull = ''null''"
| "ser rt gap ind (JBool b) = (if b then ''true'' else ''false'')"
| "ser rt gap ind (JNum n) = (if num_is_finite rt n then num_to_string rt n else ''null'')"
| "ser rt gap ind (JStr s) = quote s"
| "ser rt gap ind (JArr xs) =
     (if xs = [] then ''[]'' else wrap gap ind ''['' '']'' (ser_elems rt gap (ind @ gap) xs))"
| "ser rt gap ind (JObj ps) =
     (if ps = [] then ''{}'' else wrap gap ind ''{'' ''}'' (ser_members rt gap (ind @ gap) ps))"
| "ser_elems rt gap ind [] = []"
| "ser_elems rt gap ind (x # xs) = ser rt gap ind x # ser_elems rt gap ind xs"
| "ser_members rt gap ind [] = []"
| "ser_members rt gap ind ((k, v) # ps) =
     (quote k @ '':'' @ (if gap = [] then [] else '' '') @ ser rt gap ind v)
       # ser_members rt gap ind ps"

text \<open>\<^verbatim>\<open>JSON.stringify(value, null, space)\<close> for a number of spaces (at most ten count).\<close>

definition JSON_stringify :: "'n runtime \<Rightarrow> 'n json \<Rightarrow> nat \<Rightarrow> string" where
  "JSON_stringify rt v space = ser rt (replicate (min space 10) CHR '' '') [] v"

subsection \<open>\<^verbatim>\<open>String\<close>, \<^verbatim>\<open>typeof\<close> and truthiness\<close>

text \<open>
  \<^verbatim>\<open>String(v)\<close>. An array is its elements joined by commas, \<^verbatim>\<open>null\<close> elements as
  the empty string. An object is \<^verbatim>\<open>[object Object]\<close>, unless it has a member named
  \<^verbatim>\<open>toString\<close>: that member shadows the inherited method and is no function, and
  the conversion raises a TypeError (\<open>None\<close>).
\<close>

fun toString :: "'n runtime \<Rightarrow> 'n json \<Rightarrow> string option"
  and toString_elems :: "'n runtime \<Rightarrow> 'n json list \<Rightarrow> string list option" where
  "toString rt JNull = Some ''null''"
| "toString rt (JBool b) = Some (if b then ''true'' else ''false'')"
| "toString rt (JNum n) = Some (num_to_string rt n)"
| "toString rt (JStr s) = Some s"
| "toString rt (JArr xs) = map_option (join '','') (toString_elems rt xs)"
| "toString rt (JObj ps) =
     (if ''toString'' \<in> fst ` set ps then None else Some ''[object Object]'')"
| "toString_elems rt [] = Some []"
| "toString_elems rt (x # xs) =
     (case (if x = JNull then Some [] else toString rt x) of
        None \<Rightarrow> None
      | Some s \<Rightarrow> map_option ((#) s) (toString_elems rt xs))"

text \<open>\<^verbatim>\<open>typeof v === 'object'\<close>\<close>

fun typeof_object :: "'n json \<Rightarrow> bool" where
  "typeof_object JNull = True"
| "typeof_object (JArr xs) = True"
| "typeof_object (JObj ps) = True"
| "typeof_object _ = False"

fun truthy :: "'n runtime \<Rightarrow> 'n json \<Rightarrow> bool" where
  "truthy rt JNull = False"
| "truthy rt (JBool b) = b"
| "truthy rt (JNum n) = num_truthy rt n"
| "truthy rt (JStr s) = (s \<noteq> [])"
| "truthy rt (JArr xs) = True"
| "truthy rt (JObj ps) = True"

text \<open>
  The number a value is converted to where the host compares it with a number. An array
  or object is converted to a string first, as by \<^verbatim>\<open>String\<close>, with the same
  TypeError (\<open>None\<close>).
\<close>

definition to_number :: "'n runtime \<Rightarrow> 'n json \<Rightarrow> 'n option" where
  "to_number rt v =
     (case v of
        JNull \<Rightarrow> Some (num_of_nat rt 0)
      | JBool b \<Rightarrow> Some (num_of_nat rt (if b then 1 else 0))
      | JNum n \<Rightarrow> Some n
      | JStr s \<Rightarrow> Some (string_to_num rt s)
      | _ \<Rightarrow> map_option (string_to_num rt) (toString rt v))"

text \<open>The string of a loop counter, which names the member \<^verbatim>\<open>files[i]\<close> of an object.\<close>

fun nat_to_string :: "nat \<Rightarrow> string" where
  "nat_to_string n =
     (if n < 10 then [''0123456789'' ! n]
      else nat_to_string (n div 10) @ [''0123456789'' ! (n mod 10)])"

section \<open>Recursive JSON normalizer\<close>

text \<open>
  \<^verbatim>\<open>JSON.parse(str)\<close> as the component calls it: the argument is any value, and the
  host converts it to a string first. \<open>None\<close> is an exception, the TypeError of the
  conversion or the SyntaxError of the parser.
\<close>

definition JSON_parse_value :: "'n runtime \<Rightarrow> 'n json \<Rightarrow> 'n json option" where
  "JSON_parse_value rt str =
     (case toString rt str of None \<Rightarrow> None | Some s \<Rightarrow> JSON_parse rt s)"

text \<open>
  \<^verbatim>\<open>parseJSONString\<close> (lines 63 to 69) calls itself on whatever \<^verbatim>\<open>JSON.parse\<close>
  returns, with no test that stops it: a number, a boolean and \<^verbatim>\<open>null\<close> parse to
  themselves for ever. The host's call stack is finite, and a call that no longer fits
  raises a RangeError where it is made, inside the caller's \<^verbatim>\<open>try\<close>. The second
  argument is the number of frames the stack still has room for: with none left the call
  itself is the exception (\<open>Throws\<close>); otherwise both the exception of
  \<^verbatim>\<open>JSON.parse\<close> and the exception of the recursive call end in the
  \<^verbatim>\<open>catch\<close>, which returns \<^verbatim>\<open>str\<close>.
\<close>

datatype 'a outcome = Returns 'a | Throws

fun parseJSONString :: "'n runtime \<Rightarrow> nat \<Rightarrow> 'n json \<Rightarrow> 'n json outcome" where
  "parseJSONString rt 0 str = Throws"
| "parseJSONString rt (Suc frames) str =
     (case JSON_parse_value rt str of
        None \<Rightarrow> Returns str
      | Some v \<Rightarrow>
          (case parseJSONString rt frames v of
             Throws \<Rightarrow> Returns str
           | Returns r \<Rightarrow> Returns r))"

text \<open>
  \<^verbatim>\<open>formatJSONString\<close> (lines 71 to 85); \<open>frames\<close> is the room its call of
  \<^verbatim>\<open>parseJSONString\<close> has. Every exception in the body ends in the \<^verbatim>\<open>catch\<close>,
  which returns \<^verbatim>\<open>str\<close>.
\<close>

definition formatJSONString :: "'n runtime \<Rightarrow> nat \<Rightarrow> 'n json \<Rightarrow> 'n json" where
  "formatJSONString rt frames str =
     (case parseJSONString rt frames str of
        Throws \<Rightarrow> str
      | Returns parsed \<Rightarrow>
          if typeof_object parsed then JStr (JSON_stringify rt parsed 2)
          else (case toString rt parsed of
                  None \<Rightarrow> str
                | Some s \<Rightarrow> JStr (JSON_stringify rt (JStr s) 0)))"

subsection \<open>A runtime for the examples\<close>

text \<open>
  The examples below run on a runtime whose numbers are integers. It agrees with the
  host on integer literals, on strings that are integer literals, on integers of
  magnitude below \<open>2^53\<close> and on escapes of code units below 256, which is all the
  examples use.
\<close>

definition int_to_string :: "int \<Rightarrow> string" where
  "int_to_string i = (if i < 0 then CHR ''-'' # nat_to_string (nat (- i)) else nat_to_string (nat i))"

definition int_of_literal :: "string \<Rightarrow> int" where
  "int_of_literal l =
     (case l of
        [] \<Rightarrow> 0
      | c # r \<Rightarrow> if c = CHR ''-'' then - int (dec_val (takeWhile is_digit r))
                 else int (dec_val (takeWhile is_digit l)))"

definition int_runtime :: "int runtime" where
  "int_runtime =
     \<lparr> num_of_literal = int_of_literal,
       num_to_string = int_to_string,
       num_is_finite = (\<lambda>n. True),
       num_truthy = (\<lambda>n. n \<noteq> 0),
       num_of_nat = int,
       string_to_num = int_of_literal,
       nat_less_num = (\<lambda>i n. int i < n),
       utf16_escape = (\<lambda>n. [char_of n]) \<rparr>"

section \<open>The panel and its environment\<close>

text \<open>
  What the component reads from outside its file: the host runtime and the room on its
  stack, \<^verbatim>\<open>decode\<close> of \<^verbatim>\<open>html-entities\<close>, \<^verbatim>\<open>WEBUI_BASE_URL\<close>, the flag
  \<^verbatim>\<open>dev\<close>, and the network. \<open>fetch env url credentials\<close> is how the promise of
  \<^verbatim>\<open>fetch(url, ...)\<close> settles: it resolves once the response headers are there
  (\<open>Response\<close>, with the status code and with the \<^verbatim>\<open>content-type\<close> header if the
  response has one), whatever the status is, or it is rejected with an error of the
  given \<^verbatim>\<open>name\<close>.
\<close>

datatype fetch_outcome = Response nat "string option" | Rejected string

record 'n env =
  runtime :: "'n runtime"
  stack_room :: nat
  decode :: "string \<Rightarrow> string"
  base_url :: string
  dev :: bool
  fetch :: "string \<Rightarrow> bool \<Rightarrow> fetch_outcome"

subsection \<open>Content-type prober\<close>

text \<open>
  \<^verbatim>\<open>getContentTypeFromServer\<close> (lines 101 to 124) returns a string and has three
  effects on the outside: the request, the \<^verbatim>\<open>controller.abort()\<close> after the
  headers, and \<^verbatim>\<open>console.error\<close>. The function reads no status of the response.
  The whole body is inside \<^verbatim>\<open>try\<close>, so the function has no exceptional result.
\<close>

datatype effect = Fetch string bool | Abort | ConsoleError string

definition getContentTypeFromServer :: "'n env \<Rightarrow> string \<Rightarrow> string \<times> effect list" where
  "getContentTypeFromServer env url =
     (let fullUrl = getFullUrl (base_url env) url in
      case fetch env fullUrl (dev env) of
        Response status h \<Rightarrow>
          ((case h of None \<Rightarrow> [] | Some t \<Rightarrow> t), [Fetch fullUrl (dev env), Abort])
      | Rejected name \<Rightarrow>
          ([], Fetch fullUrl (dev env)
                 # (if name \<noteq> ''AbortError'' then [ConsoleError url] else [])))"

text \<open>\<^verbatim>\<open>determineFileType\<close> (lines 134 to 147) on a string.\<close>

definition determineFileType :: "'n env \<Rightarrow> string \<Rightarrow> string \<times> effect list" where
  "determineFileType env file =
     (if isDataUrl file then (getDataUrlMimeType file, [])
      else if file \<noteq> [] then getContentTypeFromServer env file
      else ([], []))"

subsection \<open>State of one panel\<close>

text \<open>
  The fields of \<^verbatim>\<open>attributes\<close> that the script reads; the prop itself may be
  \<^verbatim>\<open>null\<close>.
\<close>

record attribute_set =
  attr_type :: "string option"
  attr_done :: "string option"
  attr_files :: "string option"

text \<open>
  A call of the asynchronous \<^verbatim>\<open>updateFileTypes\<close> that is suspended at its
  \<^verbatim>\<open>await\<close>: the argument (an array or an object), the loop counter and the two
  local objects.
\<close>

record 'n pass =
  pass_files :: "'n json"
  pass_i :: nat
  newFileTypes :: "nat \<rightharpoonup> string"
  newLoadingStates :: "nat \<rightharpoonup> bool"

text \<open>
  The component's variables. Two fields record what the component does to the outside
  and to itself: \<open>onChange_calls\<close> lists the arguments of the calls of the
  \<^verbatim>\<open>onChange\<close> prop, and \<open>updateFileTypes_calls\<close> the arguments of the calls of
  \<^verbatim>\<open>updateFileTypes\<close>, oldest first. \<open>calls\<close> has one entry for every call of
  \<^verbatim>\<open>updateFileTypes\<close> that passed the guard of line 154, in the order of the calls:
  the suspended call, or \<open>None\<close> once it has ended.
\<close>

record 'n panel =
  is_open :: bool
  disabled :: bool
  attributes :: "attribute_set option"
  fileTypes :: "nat \<rightharpoonup> string"
  loadingFileTypes :: "nat \<rightharpoonup> bool"
  onChange_calls :: "bool list"
  updateFileTypes_calls :: "'n json list"
  calls :: "'n pass option list"

subsection \<open>Attachment resolution sequencer\<close>

text \<open>
  The loop test \<^verbatim>\<open>i < files.length\<close>. An array has its length. An object has the
  member \<^verbatim>\<open>length\<close> or nothing: nothing compares as false, and a member is
  converted to a number, which may raise a TypeError (\<open>None\<close>).
\<close>

definition loop_test :: "'n runtime \<Rightarrow> nat \<Rightarrow> 'n json \<Rightarrow> bool option" where
  "loop_test rt i files =
     (case files of
        JArr xs \<Rightarrow> Some (i < length xs)
      | JObj ps \<Rightarrow>
          (case map_of ps ''length'' of
             None \<Rightarrow> Some False
           | Some v \<Rightarrow> map_option (nat_less_num rt i) (to_number rt v))
      | _ \<Rightarrow> Some False)"

text \<open>\<^verbatim>\<open>files[i]\<close>; \<open>None\<close> is \<^verbatim>\<open>undefined\<close>.\<close>

definition file_at :: "'n json \<Rightarrow> nat \<Rightarrow> 'n json option" where
  "file_at files i =
     (case files of
        JArr xs \<Rightarrow> if i < length xs then Some (xs ! i) else None
      | JObj ps \<Rightarrow> map_of ps (nat_to_string i)
      | _ \<Rightarrow> None)"

text \<open>
  The loop of \<^verbatim>\<open>updateFileTypes\<close> (lines 158 to 170) from its test
  \<^verbatim>\<open>i < files.length\<close> to the next \<^verbatim>\<open>await\<close>, or to the end of the function,
  for the call in slot \<open>k\<close>. An element that is no string has no \<^verbatim>\<open>startsWith\<close>:
  \<^verbatim>\<open>isDataUrl\<close> raises a TypeError. That exception and the one of the loop test
  end the call with nothing more written.
\<close>

definition advance :: "'n runtime \<Rightarrow> nat \<Rightarrow> 'n pass \<Rightarrow> 'n panel \<Rightarrow> 'n panel" where
  "advance rt k p c =
     (case loop_test rt (pass_i p) (pass_files p) of
        None \<Rightarrow> c\<lparr>calls := (calls c)[k := None]\<rparr>
      | Some True \<Rightarrow>
          (case file_at (pass_files p) (pass_i p) of
             Some (JStr file) \<Rightarrow>
               (if \<not> isDataUrl file then
                  (let nls = (newLoadingStates p)(pass_i p \<mapsto> True) in
                   c\<lparr>loadingFileTypes := loadingFileTypes c ++ nls,
                     calls := (calls c)[k := Some (p\<lparr>newLoadingStates := nls\<rparr>)]\<rparr>)
                else c\<lparr>calls := (calls c)[k := Some p]\<rparr>)
           | _ \<Rightarrow> c\<lparr>calls := (calls c)[k := None]\<rparr>)
      | Some False \<Rightarrow>
          c\<lparr>fileTypes := newFileTypes p, loadingFileTypes := newLoadingStates p,
            calls := (calls c)[k := None]\<rparr>)"

text \<open>
  \<^verbatim>\<open>updateFileTypes(files)\<close> up to its first \<^verbatim>\<open>await\<close>. The guard
  \<^verbatim>\<open>typeof files === 'object' && files\<close> admits arrays and objects, and the loop
  treats both alike.
\<close>

definition updateFileTypes :: "'n runtime \<Rightarrow> 'n json \<Rightarrow> 'n panel \<Rightarrow> 'n panel" where
  "updateFileTypes rt files c =
     (if typeof_object files \<and> truthy rt files then
        advance rt (length (calls c))
          \<lparr>pass_files = files, pass_i = 0, newFileTypes = Map.empty, newLoadingStates = Map.empty\<rparr>
          (c\<lparr>calls := calls c @ [None]\<rparr>)
      else c)"

text \<open>
  The call in slot \<open>k\<close> goes on after its \<^verbatim>\<open>await\<close>: the promise of
  \<^verbatim>\<open>determineFileType(file)\<close> has resolved. Lines 165 and 166, the increment, and
  the loop again. A suspended call always waits at a string of its argument; for any
  other slot content nothing happens.
\<close>

definition resume :: "'n env \<Rightarrow> nat \<Rightarrow> 'n panel \<Rightarrow> 'n panel" where
  "resume env k c =
     (if k < length (calls c) then
        (case calls c ! k of
           None \<Rightarrow> c
         | Some p \<Rightarrow>
             (case file_at (pass_files p) (pass_i p) of
                Some (JStr file) \<Rightarrow>
                  advance (runtime env) k
                    (p\<lparr>newFileTypes := (newFileTypes p)(pass_i p \<mapsto> fst (determineFileType env file)),
                       newLoadingStates := (newLoadingStates p)(pass_i p \<mapsto> False),
                       pass_i := pass_i p + 1\<rparr>) c
              | _ \<Rightarrow> c))
      else c)"

subsection \<open>Reactive statements\<close>

text \<open>\<^verbatim>\<open>$: onChange(open);\<close> (line 59)\<close>

definition reactive_onChange :: "'n panel \<Rightarrow> 'n panel" where
  "reactive_onChange c = c\<lparr>onChange_calls := onChange_calls c @ [is_open c]\<rparr>"

text \<open>\<^verbatim>\<open>parseJSONString(decode(attributes?.files ?? ''))\<close>\<close>

definition decoded_files :: "'n env \<Rightarrow> attribute_set option \<Rightarrow> 'n json outcome" where
  "decoded_files env a =
     parseJSONString (runtime env) (stack_room env)
       (JStr (decode env (case a of None \<Rightarrow> []
                          | Some r \<Rightarrow> (case attr_files r of None \<Rightarrow> [] | Some s \<Rightarrow> s))))"

text \<open>
  The reactive statement of lines 175 to 178. An exception of \<^verbatim>\<open>parseJSONString\<close>
  (no room on the stack) leaves the statement before anything is done.
\<close>

definition reactive_files :: "'n env \<Rightarrow> 'n panel \<Rightarrow> 'n panel" where
  "reactive_files env c =
     (if (case attributes c of None \<Rightarrow> False | Some r \<Rightarrow> attr_done r = Some ''true'') then
        (case decoded_files env (attributes c) of
           Throws \<Rightarrow> c
         | Returns files \<Rightarrow>
             if truthy (runtime env) files
             then updateFileTypes (runtime env) files (c\<lparr>updateFileTypes_calls := updateFileTypes_calls c @ [files]\<rparr>)
             else c)
      else c)"

text \<open>
  The framework runs every reactive statement once when the component is created and
  again, in source order, whenever a variable the statement reads has been assigned
  since the last run. \<open>update\<close> is that run for a set of assigned variables.
\<close>

datatype variable = V_open | V_attributes

definition update :: "'n env \<Rightarrow> variable set \<Rightarrow> 'n panel \<Rightarrow> 'n panel" where
  "update env dirty c =
     (let c1 = (if V_open \<in> dirty then reactive_onChange c else c)
      in if V_attributes \<in> dirty then reactive_files env c1 else c1)"

text \<open>Creation of the component with its props.\<close>

definition create :: "'n env \<Rightarrow> bool \<Rightarrow> bool \<Rightarrow> attribute_set option \<Rightarrow> 'n panel" where
  "create env seed dis attrs =
     update env {V_open, V_attributes}
       \<lparr>is_open = seed, disabled = dis, attributes = attrs,
        fileTypes = Map.empty, loadingFileTypes = Map.empty,
        onChange_calls = [], updateFileTypes_calls = [], calls = []\<rparr>"

text \<open>The \<^verbatim>\<open>on:pointerup\<close> handler of the header (lines 187 to 191 and 262 to 266).\<close>

definition pointerup :: "'n env \<Rightarrow> 'n panel \<Rightarrow> 'n panel" where
  "pointerup env c =
     (if \<not> disabled c then update env {V_open} (c\<lparr>is_open := \<not> is_open c\<rparr>) else c)"

text \<open>
  The parent sets the prop \<^verbatim>\<open>attributes\<close>. The framework marks the variable as
  assigned unless the old and the new value are both \<^verbatim>\<open>null\<close>: an object never
  counts as unchanged.
\<close>

definition set_attributes :: "'n env \<Rightarrow> attribute_set option \<Rightarrow> 'n panel \<Rightarrow> 'n panel" where
  "set_attributes env a c =
     (if attributes c = None \<and> a = None then c
      else update env {V_attributes} (c\<lparr>attributes := a\<rparr>))"

datatype event = PointerUp | SetAttributes "attribute_set option" | Resolved nat

fun step :: "'n env \<Rightarrow> event \<Rightarrow> 'n panel \<Rightarrow> 'n panel" where
  "step env PointerUp c = pointerup env c"
| "step env (SetAttributes a) c = set_attributes env a c"
| "step env (Resolved k) c = resume env k c"

fun steps :: "'n env \<Rightarrow> event list \<Rightarrow> 'n panel \<Rightarrow> 'n panel" where
  "steps env [] c = c"
| "steps env (e # es) c = steps env es (step env e c)"

subsection \<open>An environment for the examples\<close>

text \<open>
  The integer runtime with a deep stack, a server that knows two files and answers
  404 with an HTML page for a third, and the identity for \<^verbatim>\<open>decode\<close> (the example
  texts hold no character reference).
\<close>

definition example_env :: "int env" where
  "example_env =
     \<lparr> runtime = int_runtime,
       stack_room = 10000,
       decode = (\<lambda>s. s),
       base_url = ''http://localhost:8080'',
       dev = False,
       fetch = (\<lambda>url credentials.
                  if url = ''http://localhost:8080/a.png'' then Response 200 (Some ''image/png'')
                  else if url = ''http://localhost:8080/b.mp3'' then Response 200 (Some ''audio/mpeg'')
                  else if url = ''http://localhost:8080/c'' then Response 200 None
                  else if url = ''http://localhost:8080/missing''
                    then Response 404 (Some ''text/html'')
                  else if url = ''http://localhost:8080/d'' then Rejected ''AbortError''
                  else Rejected ''TypeError'') \<rparr>"

section \<open>Inputs for the examples\<close>

text \<open>
  Attribute sets of a tool call: still streaming with no files yet, with the list
  \<open>["/a.png"]\<close>, with the list \<open>["/b.mp3"]\<close>, with the empty list, and with the
  list of both files.
\<close>

definition streaming_attributes :: attribute_set where
  "streaming_attributes =
     \<lparr>attr_type = Some ''tool_calls'', attr_done = Some ''false'', attr_files = None\<rparr>"

definition one_file_attributes :: "string \<Rightarrow> attribute_set" where
  "one_file_attributes d =
     \<lparr>attr_type = Some ''tool_calls'', attr_done = Some d,
      attr_files = Some (''['' @ quote ''/a.png'' @ '']'')\<rparr>"



definition two_file_attributes :: attribute_set where
  "two_file_attributes =
     \<lparr>attr_type = Some ''tool_calls'', attr_done = Some ''true'',
      attr_files = Some (''['' @ quote ''/a.png'' @ '','' @ quote ''/b.mp3'' @ '']'')\<rparr>"



section \<open>One call of the sequencer, running alone\<close>

text \<open>
  The states of the panel while the call in slot \<open>k\<close> runs and nothing else happens:
  the state at its first \<^verbatim>\<open>await\<close>, then the state after each continuation. The
  component assigns \<open>loadingFileTypes\<close> only at the head of an iteration and at the
  end of the function, so these states show every value the map takes.
\<close>

primrec trace :: "'n env \<Rightarrow> nat \<Rightarrow> nat \<Rightarrow> 'n panel \<Rightarrow> 'n panel list" where
  "trace env k 0 c = [c]"
| "trace env k (Suc n) c = c # trace env k n (resume env k c)"

text \<open>The type the sequencer stores for an element of the list.\<close>

definition file_type :: "'n env \<Rightarrow> 'n json option \<Rightarrow> string" where
  "file_type env x =
     (case x of Some (JStr file) \<Rightarrow> fst (determineFileType env file) | _ \<Rightarrow> [])"

definition types_upto :: "'n env \<Rightarrow> 'n json \<Rightarrow> nat \<Rightarrow> (nat \<rightharpoonup> string)" where
  "types_upto env files m =
     (\<lambda>j. if j < m then Some (file_type env (file_at files j)) else None)"

definition flags_done :: "nat \<Rightarrow> (nat \<rightharpoonup> bool)" where
  "flags_done m = (\<lambda>j. if j < m then Some False else None)"

definition flags_at :: "nat \<Rightarrow> (nat \<rightharpoonup> bool)" where
  "flags_at m = (\<lambda>j. if j < m then Some False else if j = m then Some True else None)"

definition is_remote :: "'n json \<Rightarrow> bool" where
  "is_remote x = (case x of JStr file \<Rightarrow> \<not> isDataUrl file | _ \<Rightarrow> False)"

definition is_inline :: "'n json \<Rightarrow> bool" where
  "is_inline x = (case x of JStr file \<Rightarrow> isDataUrl file | _ \<Rightarrow> False)"

text \<open>The call in slot \<open>k\<close> waits for the probe of the remote reference at index \<open>m\<close>.\<close>

definition awaiting ::
  "'n env \<Rightarrow> 'n json list \<Rightarrow> (nat \<rightharpoonup> bool) \<Rightarrow> nat \<Rightarrow> nat \<Rightarrow> 'n panel \<Rightarrow> bool" where
  "awaiting env xs lf0 k m c =
     (k < length (calls c)
      \<and> calls c ! k = Some \<lparr>pass_files = JArr xs, pass_i = m,
                             newFileTypes = types_upto env (JArr xs) m,
                             newLoadingStates = flags_at m\<rparr>
      \<and> loadingFileTypes c = lf0 ++ flags_at m)"

section \<open>Invariants of the sequencer\<close>

text \<open>
  For any list: a flag that is set in \<open>loadingFileTypes\<close> was set before the call
  started, or it belongs to a remote reference of the list.
\<close>

definition flags_only_remote ::
  "'n json list \<Rightarrow> (nat \<rightharpoonup> bool) \<Rightarrow> nat \<Rightarrow> 'n panel \<Rightarrow> bool" where
  "flags_only_remote xs lf0 k c =
     ((\<forall>i. loadingFileTypes c i = Some True \<longrightarrow>
           lf0 i = Some True \<or> (i < length xs \<and> is_remote (xs ! i)))
      \<and> k < length (calls c)
      \<and> (\<forall>p. calls c ! k = Some p \<longrightarrow>
            pass_files p = JArr xs
            \<and> (\<forall>i. newLoadingStates p i = Some True \<longrightarrow> i < length xs \<and> is_remote (xs ! i))))"




section \<open>Facts about the string functions\<close>

lemma startsWith_prefix: "startsWith s p \<longleftrightarrow> prefix p s"
  by (induction s p rule: startsWith.induct) auto

lemma startsWith_append: "startsWith (p @ r) p"
  by (simp add: startsWith_prefix)

section \<open>Claims on the classifier and the dispatcher\<close>

text \<open>
  C9, as stated: \<open>getDataUrlMimeType\<close> returns the text between the \<open>data:\<close> prefix
  and the first \<open>;\<close>, and the empty string when that marker is absent. It fails for a
  data URL that has no \<open>;\<close>: the group of the regular expression runs to the end of
  the reference, and the result is the type together with the comma and the payload.
\<close>

theorem getDataUrlMimeType_counterexample:
  "isDataUrl ''data:text/plain,hello''
   \<and> CHR '';'' \<notin> set ''data:text/plain,hello''
   \<and> getDataUrlMimeType ''data:text/plain,hello'' = ''text/plain,hello''
   \<and> getDataUrlMimeType ''data:text/plain,hello'' \<noteq> []
   \<and> getDataUrlMimeType ''data:text/plain,hello'' \<noteq> ''text/plain''"
  by (simp add: getDataUrlMimeType_def isDataUrl_def)

text \<open>
  C9, amended: \<open>getDataUrlMimeType\<close> returns the run of characters other than \<open>;\<close>
  that follows the \<open>data:\<close> prefix. For a reference with a \<open>;\<close> that is the text
  between the prefix and the first \<open>;\<close> (\<open>image/png\<close> for
  \<open>data:image/png;base64,AA==\<close>, the empty string when nothing stands before the
  \<open>;\<close>); for a reference without \<open>;\<close> it is the whole remainder, payload included.
  The result is the empty string when the reference does not start with \<open>data:\<close>.
\<close>

theorem getDataUrlMimeType_run:
  "getDataUrlMimeType ''data:image/png;base64,AA=='' = ''image/png''
   \<and> (\<forall>m rest. CHR '';'' \<notin> set m \<longrightarrow>
          getDataUrlMimeType (''data:'' @ m @ CHR '';'' # rest) = m)
   \<and> (\<forall>m. CHR '';'' \<notin> set m \<longrightarrow> getDataUrlMimeType (''data:'' @ m) = m)
   \<and> (\<forall>r. \<not> isDataUrl r \<longrightarrow> getDataUrlMimeType r = [])"
proof (intro conjI allI impI)
  show "getDataUrlMimeType ''data:image/png;base64,AA=='' = ''image/png''"
    by (simp add: getDataUrlMimeType_def)
next
  fix m rest
  assume m: "CHR '';'' \<notin> set m"
  have "takeWhile (\<lambda>c. c \<noteq> CHR '';'') (m @ CHR '';'' # rest) = m"
    using m by (auto simp add: takeWhile_tail)
  moreover have "startsWith (''data:'' @ m @ CHR '';'' # rest) ''data:''"
    by (rule startsWith_append)
  ultimately show "getDataUrlMimeType (''data:'' @ m @ CHR '';'' # rest) = m"
    by (simp add: getDataUrlMimeType_def)
next
  fix m
  assume m: "CHR '';'' \<notin> set m"
  have "takeWhile (\<lambda>c. c \<noteq> CHR '';'') m = m"
    using m by (auto simp: takeWhile_eq_all_conv)
  moreover have "startsWith (''data:'' @ m) ''data:''"
    by (rule startsWith_append)
  ultimately show "getDataUrlMimeType (''data:'' @ m) = m"
    by (simp add: getDataUrlMimeType_def)
next
  fix r
  assume "\<not> isDataUrl r"
  then show "getDataUrlMimeType r = []"
    by (simp add: getDataUrlMimeType_def isDataUrl_def)
qed

theorem getDataUrlMimeType_run_witness:
  "getDataUrlMimeType ''data:text/plain;base64,aGVsbG8='' = ''text/plain''
   \<and> getDataUrlMimeType ''data:;base64,aGVsbG8='' = []
   \<and> getDataUrlMimeType ''data:image/svg+xml,abc'' = ''image/svg+xml,abc''
   \<and> \<not> isDataUrl ''/files/a.png'' \<and> getDataUrlMimeType ''/files/a.png'' = []"
proof -
  have a: "CHR '';'' \<notin> set ''text/plain''" by simp
  have e: "CHR '';'' \<notin> set ([] :: string)" by simp
  have n: "CHR '';'' \<notin> set ''image/svg+xml,abc''" by simp
  have b: "\<not> isDataUrl ''/files/a.png''" by (simp add: isDataUrl_def)
  note t = getDataUrlMimeType_run
  have 1: "getDataUrlMimeType (''data:'' @ ''text/plain'' @ CHR '';'' # ''base64,aGVsbG8='') = ''text/plain''"
    using t [THEN conjunct2, THEN conjunct1, rule_format, OF a] .
  have 2: "getDataUrlMimeType (''data:'' @ [] @ CHR '';'' # ''base64,aGVsbG8='') = []"
    using t [THEN conjunct2, THEN conjunct1, rule_format, OF e] .
  have 3: "getDataUrlMimeType (''data:'' @ ''image/svg+xml,abc'') = ''image/svg+xml,abc''"
    using t [THEN conjunct2, THEN conjunct2, THEN conjunct1, rule_format, OF n] .
  have 4: "getDataUrlMimeType ''/files/a.png'' = []"
    using t [THEN conjunct2, THEN conjunct2, THEN conjunct2, rule_format, OF b] .
  from 1 2 3 4 b show ?thesis by simp
qed

text \<open>
  C1: for every item the dispatcher selects one branch, a function of the reference,
  the resolved MIME type and the loading flag alone (two states that give an index the
  same type and flag render the same branch), in the precedence: loading placeholder;
  \<open>image/\<close>, \<open>audio/\<close>, \<open>video/\<close> prefixes; a type containing \<open>pdf\<close>; \<open>text/\<close>
  prefix or a type containing \<open>json\<close> or \<open>xml\<close> (inline text for a data URL, a link
  otherwise); any other non-empty reference (generic); nothing for the empty
  reference. With the loading flag set the placeholder is chosen whatever the type,
  and \<open>application/pdf\<close> with the flag clear selects the document viewer.
\<close>

theorem dispatch_precedence:
  "(\<forall>file ct. dispatch file ct True = LoadingPlaceholder)
   \<and> (\<forall>file ct. startsWith ct ''image/'' \<longrightarrow> dispatch file ct False = ImageRenderer)
   \<and> (\<forall>file ct. startsWith ct ''audio/'' \<longrightarrow> dispatch file ct False = AudioPlayer)
   \<and> (\<forall>file ct. startsWith ct ''video/'' \<longrightarrow> dispatch file ct False = VideoPlayer)
   \<and> (\<forall>file ct. \<not> startsWith ct ''image/'' \<and> \<not> startsWith ct ''audio/''
          \<and> \<not> startsWith ct ''video/'' \<and> includes_str ct ''pdf'' \<longrightarrow>
          dispatch file ct False = DocumentViewer)
   \<and> (\<forall>file ct. \<not> startsWith ct ''image/'' \<and> \<not> startsWith ct ''audio/''
          \<and> \<not> startsWith ct ''video/'' \<and> \<not> includes_str ct ''pdf''
          \<and> (startsWith ct ''text/'' \<or> includes_str ct ''json'' \<or> includes_str ct ''xml'') \<longrightarrow>
          dispatch file ct False = (if isDataUrl file then TextInline else TextLink))
   \<and> (\<forall>file ct. \<not> startsWith ct ''image/'' \<and> \<not> startsWith ct ''audio/''
          \<and> \<not> startsWith ct ''video/'' \<and> \<not> includes_str ct ''pdf''
          \<and> \<not> startsWith ct ''text/'' \<and> \<not> includes_str ct ''json''
          \<and> \<not> includes_str ct ''xml'' \<longrightarrow>
          dispatch file ct False =
            (if file = [] then RenderNothing
             else if isDataUrl file then GenericInline else GenericLink))
   \<and> (\<forall>file. dispatch file ''image/png'' True = LoadingPlaceholder)
   \<and> (\<forall>file. dispatch file ''application/pdf'' False = DocumentViewer)
   \<and> (\<forall>ft lf ft' lf' i j file.
          (case ft i of None \<Rightarrow> [] | Some t \<Rightarrow> t) = (case ft' j of None \<Rightarrow> [] | Some t \<Rightarrow> t)
          \<and> (case lf i of None \<Rightarrow> False | Some b \<Rightarrow> b)
              = (case lf' j of None \<Rightarrow> False | Some b \<Rightarrow> b) \<longrightarrow>
          render_item ft lf i file = render_item ft' lf' j file)"
proof -
  have audio: "\<not> startsWith ct ''image/''" if "startsWith ct ''audio/''" for ct
    using that by (auto simp: startsWith_prefix prefix_def)
  have video: "\<not> startsWith ct ''image/'' \<and> \<not> startsWith ct ''audio/''"
    if "startsWith ct ''video/''" for ct
    using that by (auto simp: startsWith_prefix prefix_def)
  have pdf: "dispatch f ''application/pdf'' False = DocumentViewer" for f
    by (simp add: dispatch_def)
  show ?thesis
    using audio video pdf by (simp add: dispatch_def render_item_def)
qed

theorem dispatch_precedence_witness:
  "dispatch ''/files/a.png'' ''image/png'' False = ImageRenderer
   \<and> dispatch ''/files/a.mp3'' ''audio/mpeg'' False = AudioPlayer
   \<and> dispatch ''/files/a.mp4'' ''video/mp4'' False = VideoPlayer
   \<and> dispatch ''/files/a'' ''application/x-pdf'' False = DocumentViewer
   \<and> dispatch ''data:application/json;base64,e30='' ''application/json'' False = TextInline
   \<and> dispatch ''/files/a.xml'' ''application/xml'' False = TextLink
   \<and> dispatch ''/files/a.bin'' ''application/octet-stream'' False = GenericLink
   \<and> dispatch [] [] False = RenderNothing
   \<and> render_item [0 \<mapsto> ''image/png''] [0 \<mapsto> False] 0 ''/files/a.png''
       = render_item [3 \<mapsto> ''image/png''] Map.empty 3 ''/files/a.png''"
proof -
  note p = dispatch_precedence
  have 1: "dispatch ''/files/a.png'' ''image/png'' False = ImageRenderer"
    using p [THEN conjunct2, THEN conjunct1, rule_format, of "''image/png''" "''/files/a.png''"]
    by simp
  have 2: "dispatch ''/files/a.mp3'' ''audio/mpeg'' False = AudioPlayer"
    using p [THEN conjunct2, THEN conjunct2, THEN conjunct1, rule_format,
        of "''audio/mpeg''" "''/files/a.mp3''"]
    by simp
  have 3: "dispatch ''/files/a.mp4'' ''video/mp4'' False = VideoPlayer"
    using p [THEN conjunct2, THEN conjunct2, THEN conjunct2, THEN conjunct1, rule_format,
        of "''video/mp4''" "''/files/a.mp4''"]
    by simp
  have 4: "dispatch ''/files/a'' ''application/x-pdf'' False = DocumentViewer"
    using p [THEN conjunct2, THEN conjunct2, THEN conjunct2, THEN conjunct2, THEN conjunct1,
        rule_format, of "''application/x-pdf''" "''/files/a''"]
    by simp
  have 5: "dispatch ''data:application/json;base64,e30='' ''application/json'' False = TextInline"
    using p [THEN conjunct2, THEN conjunct2, THEN conjunct2, THEN conjunct2, THEN conjunct2,
        THEN conjunct1, rule_format,
        of "''application/json''" "''data:application/json;base64,e30=''"]
    by (simp add: isDataUrl_def)
  have 6: "dispatch ''/files/a.xml'' ''application/xml'' False = TextLink"
    using p [THEN conjunct2, THEN conjunct2, THEN conjunct2, THEN conjunct2, THEN conjunct2,
        THEN conjunct1, rule_format, of "''application/xml''" "''/files/a.xml''"]
    by (simp add: isDataUrl_def)
  have 7: "dispatch ''/files/a.bin'' ''application/octet-stream'' False = GenericLink"
    using p [THEN conjunct2, THEN conjunct2, THEN conjunct2, THEN conjunct2, THEN conjunct2,
        THEN conjunct2, THEN conjunct1, rule_format,
        of "''application/octet-stream''" "''/files/a.bin''"]
    by (simp add: isDataUrl_def)
  have 8: "dispatch [] [] False = RenderNothing"
    using p [THEN conjunct2, THEN conjunct2, THEN conjunct2, THEN conjunct2, THEN conjunct2,
        THEN conjunct2, THEN conjunct1, rule_format, of "[]" "[]"]
    by simp
  have 9: "render_item [0 \<mapsto> ''image/png''] [0 \<mapsto> False] 0 ''/files/a.png''
       = render_item [3 \<mapsto> ''image/png''] Map.empty 3 ''/files/a.png''"
    using p [THEN conjunct2, THEN conjunct2, THEN conjunct2, THEN conjunct2, THEN conjunct2,
        THEN conjunct2, THEN conjunct2, THEN conjunct2, THEN conjunct2, rule_format,
        of "[0 \<mapsto> ''image/png'']" 0 "[3 \<mapsto> ''image/png'']" 3 "[0 \<mapsto> False]" Map.empty
           "''/files/a.png''"]
    by simp
  from 1 2 3 4 5 6 7 8 9 show ?thesis by blast
qed

section \<open>Claims on the normalizer\<close>

lemma parseJSONString_returns: "\<exists>v. parseJSONString rt (Suc frames) str = Returns v"
  by (simp split: option.splits outcome.splits)

lemma parseJSONString_failure:
  "JSON_parse_value rt str = None \<Longrightarrow> parseJSONString rt (Suc frames) str = Returns str"
  by simp

lemma parseJSONString_descend:
  assumes "JSON_parse_value rt str = Some v"
  shows "parseJSONString rt (Suc (Suc frames)) str = parseJSONString rt (Suc frames) v"
proof -
  obtain r where "parseJSONString rt (Suc frames) v = Returns r"
    using parseJSONString_returns by blast
  with assms show ?thesis by simp
qed

lemma parseJSONString_fixed:
  "JSON_parse_value rt v = Some v \<Longrightarrow> parseJSONString rt (Suc frames) v = Returns v"
  by (induction frames) simp_all

lemma not_json_rejected: "JSON_parse rt ''not json'' = None"
  by (simp add: JSON_parse_def is_ws_def is_digit_def)

lemma object_Object_rejected: "JSON_parse rt ''[object Object]'' = None"
  by (simp add: JSON_parse_def is_ws_def is_digit_def)

lemma JObj_not_parsed: "JSON_parse_value rt (JObj ps) = None"
  by (simp add: JSON_parse_value_def object_Object_rejected)

lemma parse_pretty_printed:
  assumes "JSON_parse rt (JSON_stringify rt x 2) = Some x"
    and "JSON_parse_value rt x = None"
  shows "parseJSONString rt (Suc (Suc frames)) (JStr (JSON_stringify rt x 2)) = Returns x"
proof -
  have "JSON_parse_value rt (JStr (JSON_stringify rt x 2)) = Some x"
    using assms(1) by (simp add: JSON_parse_value_def)
  then have "parseJSONString rt (Suc (Suc frames)) (JStr (JSON_stringify rt x 2))
      = parseJSONString rt (Suc frames) x"
    by (rule parseJSONString_descend)
  also have "\<dots> = Returns x"
    using assms(2) by (rule parseJSONString_failure)
  finally show ?thesis .
qed

lemma format_structured:
  assumes "JSON_parse_value rt x = None" and "typeof_object x"
  shows "formatJSONString rt (Suc frames) x = JStr (JSON_stringify rt x 2)"
  using assms by (simp add: formatJSONString_def)

text \<open>
  C5: with room for its own frame, \<open>parseJSONString\<close> returns a value for every
  input string and never throws. Where \<^verbatim>\<open>JSON.parse\<close> fails on the value held, that
  value is returned unchanged; where it succeeds and the stack has room, the result is
  the result of the next level. For the input \<open>not json\<close>, which is no JSON text, the
  result is the input itself.
\<close>

theorem parseJSONString_never_throws:
  "(\<forall>rt frames s. \<exists>v. parseJSONString rt (Suc frames) (JStr s) = Returns v)
   \<and> (\<forall>rt frames str. JSON_parse_value rt str = None \<longrightarrow>
          parseJSONString rt (Suc frames) str = Returns str)
   \<and> (\<forall>rt frames str v. JSON_parse_value rt str = Some v \<longrightarrow>
          parseJSONString rt (Suc (Suc frames)) str = parseJSONString rt (Suc frames) v)
   \<and> (\<forall>rt frames. parseJSONString rt (Suc frames) (JStr ''not json'') = Returns (JStr ''not json''))"
proof (intro conjI allI impI)
  fix rt :: "'a runtime" and frames s
  show "\<exists>v. parseJSONString rt (Suc frames) (JStr s) = Returns v"
    by (rule parseJSONString_returns)
next
  fix rt :: "'b runtime" and frames str
  assume "JSON_parse_value rt str = None"
  then show "parseJSONString rt (Suc frames) str = Returns str"
    by (rule parseJSONString_failure)
next
  fix rt :: "'c runtime" and frames str v
  assume "JSON_parse_value rt str = Some v"
  then show "parseJSONString rt (Suc (Suc frames)) str = parseJSONString rt (Suc frames) v"
    by (rule parseJSONString_descend)
next
  fix rt :: "'d runtime" and frames
  have "JSON_parse_value rt (JStr ''not json'') = None"
    by (simp add: JSON_parse_value_def not_json_rejected)
  then show "parseJSONString rt (Suc frames) (JStr ''not json'') = Returns (JStr ''not json'')"
    by (rule parseJSONString_failure)
qed

theorem parseJSONString_never_throws_witness:
  \<open>JSON_parse_value int_runtime (JStr ''{"a":'') = None
   \<and> parseJSONString int_runtime (Suc 2) (JStr ''{"a":'') = Returns (JStr ''{"a":'')
   \<and> JSON_parse_value int_runtime (JStr ''"[1,2,3]"'') = Some (JStr ''[1,2,3]'')
   \<and> parseJSONString int_runtime (Suc (Suc 2)) (JStr ''"[1,2,3]"'')
       = parseJSONString int_runtime (Suc 2) (JStr ''[1,2,3]'')
   \<and> parseJSONString int_runtime (Suc 2) (JStr ''[1,2,3]'')
       = Returns (JArr [JNum 1, JNum 2, JNum 3])\<close>
proof -
  have a: \<open>JSON_parse_value int_runtime (JStr ''{"a":'') = None\<close>
    by code_simp
  have b: \<open>JSON_parse_value int_runtime (JStr ''"[1,2,3]"'') = Some (JStr ''[1,2,3]'')\<close>
    by code_simp
  have c: \<open>parseJSONString int_runtime (Suc 2) (JStr ''[1,2,3]'')
       = Returns (JArr [JNum 1, JNum 2, JNum 3])\<close>
    by code_simp
  from parseJSONString_never_throws a
  have a': \<open>parseJSONString int_runtime (Suc 2) (JStr ''{"a":'') = Returns (JStr ''{"a":'')\<close>
    by blast
  from parseJSONString_never_throws b
  have b': \<open>parseJSONString int_runtime (Suc (Suc 2)) (JStr ''"[1,2,3]"'')
       = parseJSONString int_runtime (Suc 2) (JStr ''[1,2,3]'')\<close>
    by blast
  from a a' b b' c show ?thesis by blast
qed

lemma singleton_list_collapses:
  "parseJSONString int_runtime (Suc (Suc frames)) (JArr [JNum 1]) = Returns (JNum 1)"
proof -
  have one: "JSON_parse_value int_runtime (JNum 1) = Some (JNum 1)"
    by code_simp
  have "JSON_parse_value int_runtime (JArr [JNum 1]) = Some (JNum 1)"
    by code_simp
  then have "parseJSONString int_runtime (Suc (Suc frames)) (JArr [JNum 1])
      = parseJSONString int_runtime (Suc frames) (JNum 1)"
    by (rule parseJSONString_descend)
  also have "\<dots> = Returns (JNum 1)"
    using one by (rule parseJSONString_fixed)
  finally show ?thesis .
qed

lemma quoted_one_normalizes:
  \<open>parseJSONString int_runtime (Suc (Suc (Suc frames))) (JStr ''"1"'') = Returns (JNum 1)\<close>
proof -
  have one: "JSON_parse_value int_runtime (JNum 1) = Some (JNum 1)"
    by code_simp
  have s: "JSON_parse_value int_runtime (JStr ''1'') = Some (JNum 1)"
    by code_simp
  have \<open>JSON_parse_value int_runtime (JStr ''"1"'') = Some (JStr ''1'')\<close>
    by code_simp
  then have \<open>parseJSONString int_runtime (Suc (Suc (Suc frames))) (JStr ''"1"'')
      = parseJSONString int_runtime (Suc (Suc frames)) (JStr ''1'')\<close>
    by (rule parseJSONString_descend)
  also have "\<dots> = parseJSONString int_runtime (Suc frames) (JNum 1)"
    using s by (rule parseJSONString_descend)
  also have "\<dots> = Returns (JNum 1)"
    using one by (rule parseJSONString_fixed)
  finally show ?thesis .
qed

text \<open>
  C4, as stated: for every structured value \<open>x\<close> that round-trips through JSON,
  normalizing the formatted \<open>x\<close> gives \<open>x\<close>. It fails for the list \<open>[1]\<close>: the list
  round-trips, but \<^verbatim>\<open>JSON.parse\<close> converts a list it is handed to the string of its
  elements, here \<open>1\<close>, which is JSON text. So \<open>formatJSONString\<close> prints the quoted
  string \<open>"1"\<close>, the normalizer returns the number 1 for it, and it returns the number
  1 for the pretty-printed list as well.
\<close>

theorem format_roundtrip_counterexample:
  \<open>typeof_object (JArr [JNum (1::int)])
   \<and> JSON_parse int_runtime (JSON_stringify int_runtime (JArr [JNum 1]) 2) = Some (JArr [JNum 1])
   \<and> formatJSONString int_runtime 10000 (JArr [JNum 1]) = JStr ''"1"''
   \<and> parseJSONString int_runtime 10000 (formatJSONString int_runtime 10000 (JArr [JNum 1]))
       = Returns (JNum 1)
   \<and> parseJSONString int_runtime 10000 (formatJSONString int_runtime 10000 (JArr [JNum 1]))
       \<noteq> Returns (JArr [JNum 1])
   \<and> parseJSONString int_runtime 10000 (JStr (JSON_stringify int_runtime (JArr [JNum 1]) 2))
       \<noteq> Returns (JArr [JNum 1])\<close>
proof -
  have n: "(10000::nat) = Suc (Suc (Suc 9997))" by simp
  have rt: "JSON_parse int_runtime (JSON_stringify int_runtime (JArr [JNum 1]) 2) = Some (JArr [JNum 1])"
    by code_simp
  have p: "parseJSONString int_runtime 10000 (JArr [JNum 1]) = Returns (JNum 1)"
    unfolding n by (rule singleton_list_collapses)
  have s: "toString int_runtime (JNum 1) = Some ''1''"
    by code_simp
  have q: \<open>JSON_stringify int_runtime (JStr ''1'') 0 = ''"1"''\<close>
    by code_simp
  have f: \<open>formatJSONString int_runtime 10000 (JArr [JNum 1]) = JStr ''"1"''\<close>
    unfolding formatJSONString_def p using s q by simp
  have r: \<open>parseJSONString int_runtime 10000 (JStr ''"1"'') = Returns (JNum 1)\<close>
    unfolding n by (rule quoted_one_normalizes)
  have "JSON_parse_value int_runtime (JStr (JSON_stringify int_runtime (JArr [JNum 1]) 2))
      = Some (JArr [JNum 1])"
    using rt by (simp add: JSON_parse_value_def)
  then have "parseJSONString int_runtime (Suc (Suc (Suc 9997)))
        (JStr (JSON_stringify int_runtime (JArr [JNum 1]) 2))
      = parseJSONString int_runtime (Suc (Suc 9997)) (JArr [JNum 1])"
    by (rule parseJSONString_descend)
  also have "\<dots> = Returns (JNum 1)"
    by (rule singleton_list_collapses)
  finally have t: "parseJSONString int_runtime 10000
        (JStr (JSON_stringify int_runtime (JArr [JNum 1]) 2)) = Returns (JNum 1)"
    unfolding n .
  show ?thesis
    unfolding f r t rt by simp
qed

text \<open>
  C4, amended: \<open>normalize(format(x)) = x\<close> for every structured value \<open>x\<close> that
  round-trips through JSON and that \<^verbatim>\<open>JSON.parse\<close> rejects when it is handed \<open>x\<close>
  itself. Every object is such a value (first part); a list is one when the string of
  its elements, joined by commas, is no JSON text (second part). The stack has room
  for two frames or more.
\<close>

theorem format_roundtrip:
  "(\<forall>rt frames ps.
      JSON_parse rt (JSON_stringify rt (JObj ps) 2) = Some (JObj ps) \<longrightarrow>
      parseJSONString rt (Suc (Suc frames)) (formatJSONString rt (Suc (Suc frames)) (JObj ps))
        = Returns (JObj ps))
   \<and> (\<forall>rt frames xs.
      JSON_parse rt (JSON_stringify rt (JArr xs) 2) = Some (JArr xs)
      \<and> JSON_parse_value rt (JArr xs) = None \<longrightarrow>
      parseJSONString rt (Suc (Suc frames)) (formatJSONString rt (Suc (Suc frames)) (JArr xs))
        = Returns (JArr xs))"
proof (intro conjI allI impI)
  fix rt :: "'a runtime" and frames ps
  assume r: "JSON_parse rt (JSON_stringify rt (JObj ps) 2) = Some (JObj ps)"
  have "formatJSONString rt (Suc (Suc frames)) (JObj ps) = JStr (JSON_stringify rt (JObj ps) 2)"
    by (rule format_structured) (simp_all add: JObj_not_parsed)
  then show "parseJSONString rt (Suc (Suc frames)) (formatJSONString rt (Suc (Suc frames)) (JObj ps))
        = Returns (JObj ps)"
    using parse_pretty_printed [OF r JObj_not_parsed] by simp
next
  fix rt :: "'b runtime" and frames xs
  assume a: "JSON_parse rt (JSON_stringify rt (JArr xs) 2) = Some (JArr xs)
      \<and> JSON_parse_value rt (JArr xs) = None"
  then have "formatJSONString rt (Suc (Suc frames)) (JArr xs) = JStr (JSON_stringify rt (JArr xs) 2)"
    by (intro format_structured) simp_all
  then show "parseJSONString rt (Suc (Suc frames)) (formatJSONString rt (Suc (Suc frames)) (JArr xs))
        = Returns (JArr xs)"
    using parse_pretty_printed [of rt "JArr xs"] a by simp
qed

theorem format_roundtrip_witness:
  \<open>JSON_parse int_runtime (JSON_stringify int_runtime (JObj [(''a'', JArr [JNum 1, JNull])]) 2)
     = Some (JObj [(''a'', JArr [JNum 1, JNull])])
   \<and> parseJSONString int_runtime (Suc (Suc 8))
        (formatJSONString int_runtime (Suc (Suc 8)) (JObj [(''a'', JArr [JNum 1, JNull])]))
       = Returns (JObj [(''a'', JArr [JNum 1, JNull])])
   \<and> JSON_parse int_runtime (JSON_stringify int_runtime (JArr [JNum 1, JStr ''b'']) 2)
       = Some (JArr [JNum 1, JStr ''b''])
   \<and> JSON_parse_value int_runtime (JArr [JNum 1, JStr ''b'']) = None
   \<and> parseJSONString int_runtime (Suc (Suc 8))
        (formatJSONString int_runtime (Suc (Suc 8)) (JArr [JNum 1, JStr ''b'']))
       = Returns (JArr [JNum 1, JStr ''b''])\<close>
proof -
  have a: "JSON_parse int_runtime (JSON_stringify int_runtime (JObj [(''a'', JArr [JNum 1, JNull])]) 2)
     = Some (JObj [(''a'', JArr [JNum 1, JNull])])"
    by code_simp
  have b: "JSON_parse int_runtime (JSON_stringify int_runtime (JArr [JNum 1, JStr ''b'']) 2)
       = Some (JArr [JNum 1, JStr ''b''])"
    by code_simp
  have c: "JSON_parse_value int_runtime (JArr [JNum 1, JStr ''b'']) = None"
    by code_simp
  from format_roundtrip a
  have a': "parseJSONString int_runtime (Suc (Suc 8))
        (formatJSONString int_runtime (Suc (Suc 8)) (JObj [(''a'', JArr [JNum 1, JNull])]))
       = Returns (JObj [(''a'', JArr [JNum 1, JNull])])"
    by blast
  from format_roundtrip b c
  have b': "parseJSONString int_runtime (Suc (Suc 8))
        (formatJSONString int_runtime (Suc (Suc 8)) (JArr [JNum 1, JStr ''b'']))
       = Returns (JArr [JNum 1, JStr ''b''])"
    by blast
  from a a' b b' c show ?thesis by blast
qed

section \<open>Claims on the prober\<close>

lemma example_urls:
  "getFullUrl (base_url example_env) ''/a.png'' = ''http://localhost:8080/a.png''"
  "getFullUrl (base_url example_env) ''c'' = ''http://localhost:8080/c''"
  "getFullUrl (base_url example_env) ''/d'' = ''http://localhost:8080/d''"
  "getFullUrl (base_url example_env) ''/e'' = ''http://localhost:8080/e''"
  "getFullUrl (base_url example_env) ''/b.mp3'' = ''http://localhost:8080/b.mp3''"
  "getFullUrl (base_url example_env) ''/missing'' = ''http://localhost:8080/missing''"
  by (simp_all add: getFullUrl_def example_env_def isDataUrl_def isAbsoluteUrl_def)

text \<open>
  C6, as stated: \<open>getContentTypeFromServer\<close> returns the \<^verbatim>\<open>content-type\<close> header,
  and the empty string whenever the header is absent or the request fails for any
  reason. A request that is answered with an error status has failed, and the result
  should be the empty string. It is not: the function reads no status, and for a file
  the server does not have, answered with 404 and an HTML error page, it returns the
  type of the error page.
\<close>

theorem prober_status_counterexample:
  "fetch example_env (getFullUrl (base_url example_env) ''/missing'') (dev example_env)
     = Response 404 (Some ''text/html'')
   \<and> fst (getContentTypeFromServer example_env ''/missing'') = ''text/html''
   \<and> fst (getContentTypeFromServer example_env ''/missing'') \<noteq> []"
proof -
  have "fetch example_env (getFullUrl (base_url example_env) ''/missing'') (dev example_env)
     = Response 404 (Some ''text/html'')"
    by (simp add: example_urls) (simp add: example_env_def)
  then show ?thesis
    by (simp add: getContentTypeFromServer_def)
qed

text \<open>
  C6, amended: \<open>getContentTypeFromServer\<close> returns the \<^verbatim>\<open>content-type\<close> header of
  the response, whatever the status of the response is, and the empty string when the
  response has no such header or when the promise of \<^verbatim>\<open>fetch\<close> is rejected,
  whatever the error. The cancellation after the headers is not a failure: the header
  value is still the result and nothing is logged. An error is logged exactly when the
  promise was rejected with an error whose name is not \<open>AbortError\<close>.
\<close>

theorem prober_result:
  "(\<forall>env url status h.
      fetch env (getFullUrl (base_url env) url) (dev env) = Response status (Some h) \<longrightarrow>
      getContentTypeFromServer env url
        = (h, [Fetch (getFullUrl (base_url env) url) (dev env), Abort]))
   \<and> (\<forall>env url status.
      fetch env (getFullUrl (base_url env) url) (dev env) = Response status None \<longrightarrow>
      getContentTypeFromServer env url
        = ([], [Fetch (getFullUrl (base_url env) url) (dev env), Abort]))
   \<and> (\<forall>env url name. fetch env (getFullUrl (base_url env) url) (dev env) = Rejected name \<longrightarrow>
      fst (getContentTypeFromServer env url) = []
      \<and> Abort \<notin> set (snd (getContentTypeFromServer env url)))
   \<and> (\<forall>env url. ConsoleError url \<in> set (snd (getContentTypeFromServer env url)) \<longleftrightarrow>
      (\<exists>name. fetch env (getFullUrl (base_url env) url) (dev env) = Rejected name
         \<and> name \<noteq> ''AbortError''))"
  by (auto simp: getContentTypeFromServer_def Let_def split: fetch_outcome.splits option.splits)

theorem prober_result_witness:
  "getContentTypeFromServer example_env ''/a.png''
     = (''image/png'', [Fetch ''http://localhost:8080/a.png'' False, Abort])
   \<and> getContentTypeFromServer example_env ''/missing''
     = (''text/html'', [Fetch ''http://localhost:8080/missing'' False, Abort])
   \<and> getContentTypeFromServer example_env ''c''
     = ([], [Fetch ''http://localhost:8080/c'' False, Abort])
   \<and> fetch example_env ''http://localhost:8080/d'' False = Rejected ''AbortError''
   \<and> fst (getContentTypeFromServer example_env ''/d'') = []
   \<and> ConsoleError ''/d'' \<notin> set (snd (getContentTypeFromServer example_env ''/d''))
   \<and> ConsoleError ''/e'' \<in> set (snd (getContentTypeFromServer example_env ''/e''))"
proof -
  note p = prober_result
  have a: "fetch example_env (getFullUrl (base_url example_env) ''/a.png'') (dev example_env)
      = Response 200 (Some ''image/png'')"
    by (simp add: example_urls) (simp add: example_env_def)
  have m: "fetch example_env (getFullUrl (base_url example_env) ''/missing'') (dev example_env)
      = Response 404 (Some ''text/html'')"
    by (simp add: example_urls) (simp add: example_env_def)
  have c: "fetch example_env (getFullUrl (base_url example_env) ''c'') (dev example_env)
      = Response 200 None"
    by (simp add: example_urls) (simp add: example_env_def)
  have d: "fetch example_env (getFullUrl (base_url example_env) ''/d'') (dev example_env)
      = Rejected ''AbortError''"
    by (simp add: example_urls) (simp add: example_env_def)
  have e: "fetch example_env (getFullUrl (base_url example_env) ''/e'') (dev example_env)
      = Rejected ''TypeError''"
    by (simp add: example_urls) (simp add: example_env_def)
  have dv: "dev example_env = False" by (simp add: example_env_def)
  have 1: "getContentTypeFromServer example_env ''/a.png''
     = (''image/png'', [Fetch ''http://localhost:8080/a.png'' False, Abort])"
    using p [THEN conjunct1, rule_format, OF a] by (simp add: example_urls dv)
  have 7: "getContentTypeFromServer example_env ''/missing''
     = (''text/html'', [Fetch ''http://localhost:8080/missing'' False, Abort])"
    using p [THEN conjunct1, rule_format, OF m] by (simp add: example_urls dv)
  have 2: "getContentTypeFromServer example_env ''c''
     = ([], [Fetch ''http://localhost:8080/c'' False, Abort])"
    using p [THEN conjunct2, THEN conjunct1, rule_format, OF c] by (simp add: example_urls dv)
  have 3: "fst (getContentTypeFromServer example_env ''/d'') = []"
    using p [THEN conjunct2, THEN conjunct2, THEN conjunct1, rule_format, OF d] by simp
  have 4: "ConsoleError ''/d'' \<notin> set (snd (getContentTypeFromServer example_env ''/d''))"
    using p [THEN conjunct2, THEN conjunct2, THEN conjunct2, rule_format, of "''/d''" example_env] d
    by simp
  have 5: "ConsoleError ''/e'' \<in> set (snd (getContentTypeFromServer example_env ''/e''))"
    using p [THEN conjunct2, THEN conjunct2, THEN conjunct2, rule_format, of "''/e''" example_env] e
    by simp
  have 6: "fetch example_env ''http://localhost:8080/d'' False = Rejected ''AbortError''"
    by (simp add: example_env_def)
  show ?thesis
    by (intro conjI 1 2 3 4 5 6 7)
qed

section \<open>Claims on the disclosure controller\<close>

lemma advance_frame:
  "is_open (advance rt k p c) = is_open c"
  "disabled (advance rt k p c) = disabled c"
  "attributes (advance rt k p c) = attributes c"
  "onChange_calls (advance rt k p c) = onChange_calls c"
  "updateFileTypes_calls (advance rt k p c) = updateFileTypes_calls c"
  by (simp_all add: advance_def Let_def split: option.splits bool.splits json.splits)

lemma updateFileTypes_frame:
  "is_open (updateFileTypes rt v c) = is_open c"
  "disabled (updateFileTypes rt v c) = disabled c"
  "attributes (updateFileTypes rt v c) = attributes c"
  "onChange_calls (updateFileTypes rt v c) = onChange_calls c"
  "updateFileTypes_calls (updateFileTypes rt v c) = updateFileTypes_calls c"
  by (simp_all add: updateFileTypes_def advance_frame)

lemma reactive_files_frame:
  "is_open (reactive_files env c) = is_open c"
  "disabled (reactive_files env c) = disabled c"
  "attributes (reactive_files env c) = attributes c"
  "onChange_calls (reactive_files env c) = onChange_calls c"
  by (simp_all add: reactive_files_def updateFileTypes_frame split: outcome.splits)

text \<open>
  C8: a toggle on the header while the panel is not disabled flips \<open>open\<close> and calls
  \<^verbatim>\<open>onChange\<close> once, with the new value (\<open>True\<close> when the panel was closed), and
  changes nothing else of the panel; a toggle while the panel is disabled changes
  nothing and notifies nobody.
\<close>

theorem toggle_notifies:
  "(\<forall>env c. \<not> disabled c \<longrightarrow>
      pointerup env c = c\<lparr>is_open := \<not> is_open c, onChange_calls := onChange_calls c @ [\<not> is_open c]\<rparr>)
   \<and> (\<forall>env c. \<not> disabled c \<and> \<not> is_open c \<longrightarrow>
      is_open (pointerup env c) \<and> onChange_calls (pointerup env c) = onChange_calls c @ [True])
   \<and> (\<forall>env c. disabled c \<longrightarrow> pointerup env c = c)"
  by (simp add: pointerup_def update_def reactive_onChange_def)

text \<open>
  C10: creating the panel calls \<^verbatim>\<open>onChange\<close> once, with the seed of \<open>open\<close>,
  before any toggle: the reactive statement runs at creation.
\<close>

theorem create_notifies:
  "onChange_calls (create env seed dis attrs) = [seed]
   \<and> is_open (create env seed dis attrs) = seed"
  by (simp add: create_def update_def reactive_onChange_def reactive_files_frame)

theorem toggle_notifies_witness:
  "\<not> disabled (create example_env False False None)
   \<and> \<not> is_open (create example_env False False None)
   \<and> is_open (pointerup example_env (create example_env False False None))
   \<and> onChange_calls (pointerup example_env (create example_env False False None)) = [False, True]
   \<and> disabled (create example_env False True None)
   \<and> onChange_calls (pointerup example_env (create example_env False True None)) = [False]
   \<and> \<not> is_open (pointerup example_env (create example_env False True None))"
proof -
  let ?c = "create example_env False False None"
  let ?d = "create example_env False True None"
  have c: "\<not> disabled ?c \<and> \<not> is_open ?c"
    by (simp add: create_def update_def reactive_onChange_def reactive_files_def)
  have d: "disabled ?d"
    by (simp add: create_def update_def reactive_onChange_def reactive_files_def)
  have n: "onChange_calls ?c = [False]" "onChange_calls ?d = [False]" "\<not> is_open ?d"
    by (simp_all add: create_def update_def reactive_onChange_def reactive_files_def)
  from toggle_notifies c
  have 1: "is_open (pointerup example_env ?c)
      \<and> onChange_calls (pointerup example_env ?c) = onChange_calls ?c @ [True]"
    by blast
  from toggle_notifies d
  have 2: "pointerup example_env ?d = ?d"
    by blast
  from c d n 1 2 show ?thesis by simp
qed

section \<open>Claims on the reactive trigger\<close>

lemma decoded_streaming:
  "decoded_files example_env (Some streaming_attributes) = Returns (JStr [])"
  by code_simp

lemma decoded_one_file:
  "decoded_files example_env (Some (one_file_attributes d)) = Returns (JArr [JStr ''/a.png''])"
proof -
  have "parseJSONString int_runtime 10000 (JStr (''['' @ quote ''/a.png'' @ '']''))
      = Returns (JArr [JStr ''/a.png''])"
    by code_simp
  then show ?thesis
    by (simp add: decoded_files_def one_file_attributes_def example_env_def)
qed

lemma set_attributes_untriggered:
  assumes "attr_done a \<noteq> Some ''true''
      \<or> (\<exists>v. decoded_files env (Some a) = Returns v \<and> \<not> truthy (runtime env) v)"
  shows "set_attributes env (Some a) c = c\<lparr>attributes := Some a\<rparr>"
  using assms by (auto simp: set_attributes_def update_def reactive_files_def Let_def)

text \<open>
  C7, as stated: every change of the attributes that changes the decoded files runs
  \<open>updateFileTypes\<close>, whatever the other fields hold. It fails while the tool call is
  still streaming: the files field appears, the decoded value changes from the empty
  string to a list, and with \<open>done\<close> other than \<open>true\<close> the statement calls nothing.
\<close>

theorem files_trigger_counterexample:
  "decoded_files example_env (attributes (create example_env False False (Some streaming_attributes)))
     = Returns (JStr [])
   \<and> decoded_files example_env (Some (one_file_attributes ''false'')) = Returns (JArr [JStr ''/a.png''])
   \<and> updateFileTypes_calls
        (set_attributes example_env (Some (one_file_attributes ''false''))
           (create example_env False False (Some streaming_attributes))) = []
   \<and> calls
        (set_attributes example_env (Some (one_file_attributes ''false''))
           (create example_env False False (Some streaming_attributes))) = []"
proof -
  let ?c = "create example_env False False (Some streaming_attributes)"
  have c: "?c = \<lparr>is_open = False, disabled = False, attributes = Some streaming_attributes,
        fileTypes = Map.empty, loadingFileTypes = Map.empty,
        onChange_calls = [False], updateFileTypes_calls = [], calls = []\<rparr>"
    by (simp add: create_def update_def reactive_onChange_def reactive_files_def
        streaming_attributes_def)
  have "attr_done (one_file_attributes ''false'') \<noteq> Some ''true''"
    by (simp add: one_file_attributes_def)
  then have s: "set_attributes example_env (Some (one_file_attributes ''false'')) ?c
      = ?c\<lparr>attributes := Some (one_file_attributes ''false'')\<rparr>"
    by (intro set_attributes_untriggered) simp
  show ?thesis
    unfolding s by (simp add: c decoded_streaming decoded_one_file)
qed

text \<open>
  C7, amended: every assignment of the attributes, whether the decoded files changed
  or not, runs \<open>updateFileTypes\<close> on the decoded files when \<open>done\<close> is the string
  \<open>true\<close> and the decoded files value is truthy; when \<open>done\<close> is anything else, or
  the decoded value is falsy, nothing is called and the resolution state stays as it
  is.
\<close>

theorem files_trigger:
  "(\<forall>env c a v. attr_done a = Some ''true'' \<and> decoded_files env (Some a) = Returns v
        \<and> truthy (runtime env) v \<longrightarrow>
      updateFileTypes_calls (set_attributes env (Some a) c) = updateFileTypes_calls c @ [v])
   \<and> (\<forall>env c a. attr_done a \<noteq> Some ''true'' \<longrightarrow>
      set_attributes env (Some a) c = c\<lparr>attributes := Some a\<rparr>)
   \<and> (\<forall>env c a v. decoded_files env (Some a) = Returns v \<and> \<not> truthy (runtime env) v \<longrightarrow>
      set_attributes env (Some a) c = c\<lparr>attributes := Some a\<rparr>)"
proof (intro conjI allI impI)
  fix env :: "'a env" and c and a :: attribute_set and v
  assume "attr_done a = Some ''true'' \<and> decoded_files env (Some a) = Returns v
        \<and> truthy (runtime env) v"
  then show "updateFileTypes_calls (set_attributes env (Some a) c) = updateFileTypes_calls c @ [v]"
    by (simp add: set_attributes_def update_def reactive_files_def updateFileTypes_frame Let_def)
next
  fix env :: "'b env" and c and a :: attribute_set
  assume "attr_done a \<noteq> Some ''true''"
  then show "set_attributes env (Some a) c = c\<lparr>attributes := Some a\<rparr>"
    by (intro set_attributes_untriggered) simp
next
  fix env :: "'c env" and c and a :: attribute_set and v
  assume "decoded_files env (Some a) = Returns v \<and> \<not> truthy (runtime env) v"
  then show "set_attributes env (Some a) c = c\<lparr>attributes := Some a\<rparr>"
    by (intro set_attributes_untriggered) simp
qed

theorem files_trigger_witness:
  "attr_done (one_file_attributes ''true'') = Some ''true''
   \<and> decoded_files example_env (Some (one_file_attributes ''true'')) = Returns (JArr [JStr ''/a.png''])
   \<and> truthy (runtime example_env) (JArr [JStr ''/a.png''])
   \<and> updateFileTypes_calls
        (set_attributes example_env (Some (one_file_attributes ''true''))
          (set_attributes example_env (Some (one_file_attributes ''true''))
            (create example_env False False None)))
       = [JArr [JStr ''/a.png''], JArr [JStr ''/a.png'']]
   \<and> decoded_files example_env (Some streaming_attributes) = Returns (JStr [])
   \<and> \<not> truthy (runtime example_env) (JStr [])
   \<and> updateFileTypes_calls
        (set_attributes example_env (Some streaming_attributes)
          (create example_env False False None)) = []"
proof -
  let ?a = "one_file_attributes ''true''"
  let ?c = "create example_env False False None"
  have c: "updateFileTypes_calls ?c = []"
    by (simp add: create_def update_def reactive_onChange_def reactive_files_def)
  have h: "attr_done ?a = Some ''true'' \<and> decoded_files example_env (Some ?a)
        = Returns (JArr [JStr ''/a.png''])
      \<and> truthy (runtime example_env) (JArr [JStr ''/a.png''])"
    by (simp add: decoded_one_file) (simp add: one_file_attributes_def)
  have 1: "updateFileTypes_calls (set_attributes example_env (Some ?a) c')
      = updateFileTypes_calls c' @ [JArr [JStr ''/a.png'']]" for c'
    using files_trigger [THEN conjunct1, rule_format, OF h] .
  have g: "decoded_files example_env (Some streaming_attributes) = Returns (JStr [])
      \<and> \<not> truthy (runtime example_env) (JStr [])"
    by (simp add: decoded_streaming)
  have 2: "set_attributes example_env (Some streaming_attributes) ?c
      = ?c\<lparr>attributes := Some streaming_attributes\<rparr>"
    using files_trigger [THEN conjunct2, THEN conjunct2, rule_format, OF g] .
  show ?thesis
    using h g by (simp add: 1 2 c)
qed

section \<open>Facts on one call running alone\<close>

lemma trace_length: "length (trace env k n c) = Suc n"
  by (induction n arbitrary: c) simp_all

lemma trace_nth: "j \<le> n \<Longrightarrow> trace env k n c ! j = (resume env k ^^ j) c"
proof (induction n arbitrary: c j)
  case 0
  then show ?case by simp
next
  case (Suc n)
  show ?case
  proof (cases j)
    case 0
    then show ?thesis by simp
  next
    case (Suc j')
    with Suc.prems have "j' \<le> n" by simp
    with Suc.IH [of j' "resume env k c"] Suc show ?thesis
      by (simp add: funpow_swap1)
  qed
qed

lemma trace_last: "last (trace env k n c) = (resume env k ^^ n) c"
proof -
  have "trace env k n c \<noteq> []"
    using trace_length [of env k n c] by auto
  then have "last (trace env k n c) = trace env k n c ! n"
    by (simp add: last_conv_nth trace_length)
  then show ?thesis by (simp add: trace_nth)
qed

lemma flags_at_next: "(flags_at m)(m \<mapsto> False, Suc m \<mapsto> True) = flags_at (Suc m)"
  by (auto simp: flags_at_def fun_eq_iff)

lemma flags_at_done: "(flags_at m)(m \<mapsto> False) = flags_done (Suc m)"
  by (auto simp: flags_at_def flags_done_def fun_eq_iff)

lemma flags_overlay: "(lf0 ++ flags_at m) ++ flags_at (Suc m) = lf0 ++ flags_at (Suc m)"
  by (auto simp: flags_at_def fun_eq_iff map_add_def split: option.splits)

lemma types_upto_next:
  "file_at files m = Some (JStr f0) \<Longrightarrow>
   (types_upto env files m)(m \<mapsto> fst (determineFileType env f0)) = types_upto env files (Suc m)"
  by (auto simp: types_upto_def file_type_def fun_eq_iff)

lemma start_awaiting:
  assumes "xs \<noteq> []" and "is_remote (xs ! 0)"
  shows "awaiting env xs (loadingFileTypes c0) (length (calls c0)) 0 (updateFileTypes (runtime env) (JArr xs) c0)"
proof -
  from assms(2) obtain f0 where f: "xs ! 0 = JStr f0" "\<not> isDataUrl f0"
    by (auto simp: is_remote_def split: json.splits)
  have e: "Map.empty(0 \<mapsto> True) = flags_at 0" "types_upto env (JArr xs) 0 = Map.empty"
    by (auto simp: flags_at_def types_upto_def fun_eq_iff)
  show ?thesis
    using assms(1) f
    by (simp add: awaiting_def updateFileTypes_def advance_def loop_test_def file_at_def Let_def e)
qed

lemma resume_awaiting:
  assumes "awaiting env xs lf0 k m c" and "is_remote (xs ! m)" and "m < length xs"
  shows "Suc m < length xs \<Longrightarrow> is_remote (xs ! Suc m) \<Longrightarrow> awaiting env xs lf0 k (Suc m) (resume env k c)"
    and "Suc m = length xs \<Longrightarrow>
           resume env k c = c\<lparr>fileTypes := types_upto env (JArr xs) (length xs),
                              loadingFileTypes := flags_done (length xs),
                              calls := (calls c)[k := None]\<rparr>"
proof -
  from assms(2) obtain f0 where f: "xs ! m = JStr f0" "\<not> isDataUrl f0"
    by (auto simp: is_remote_def split: json.splits)
  let ?p = "\<lparr>pass_files = JArr xs, pass_i = Suc m,
             newFileTypes = types_upto env (JArr xs) (Suc m),
             newLoadingStates = flags_done (Suc m)\<rparr>"
  have fa: "file_at (JArr xs) m = Some (JStr f0)"
    using assms(3) f by (simp add: file_at_def)
  have r: "resume env k c = advance (runtime env) k ?p c"
    using assms(1,3) fa
    by (simp add: awaiting_def resume_def types_upto_next flags_at_done)
  {
    assume n: "Suc m < length xs" and "is_remote (xs ! Suc m)"
    then obtain g where g: "xs ! Suc m = JStr g" "\<not> isDataUrl g"
      by (auto simp: is_remote_def split: json.splits)
    have u: "(flags_done (Suc m))(Suc m \<mapsto> True) = flags_at (Suc m)"
      using flags_at_next [of m] flags_at_done [of m] by simp
    show "awaiting env xs lf0 k (Suc m) (resume env k c)"
      using assms(1) n g
      by (simp add: r advance_def loop_test_def file_at_def Let_def u awaiting_def flags_overlay)
  }
  {
    assume "Suc m = length xs"
    then show "resume env k c = c\<lparr>fileTypes := types_upto env (JArr xs) (length xs),
                              loadingFileTypes := flags_done (length xs),
                              calls := (calls c)[k := None]\<rparr>"
      by (simp add: r advance_def loop_test_def)
  }
qed

lemma funpow_awaiting:
  assumes "\<forall>x \<in> set xs. is_remote x" and "m < length xs"
  shows "awaiting env xs (loadingFileTypes c0) (length (calls c0)) m
           ((resume env (length (calls c0)) ^^ m) (updateFileTypes (runtime env) (JArr xs) c0))"
  using assms(2)
proof (induction m)
  case 0
  then have "xs \<noteq> []" "is_remote (xs ! 0)" using assms(1) by auto
  then show ?case by (simp add: start_awaiting)
next
  case (Suc m)
  then have "m < length xs" "is_remote (xs ! m)" "is_remote (xs ! Suc m)"
    using assms(1) by auto
  with Suc show ?case
    by (simp add: resume_awaiting(1))
qed

lemma funpow_finished:
  assumes "\<forall>x \<in> set xs. is_remote x"
  shows "loadingFileTypes ((resume env (length (calls c0)) ^^ length xs) (updateFileTypes (runtime env) (JArr xs) c0))
           = flags_done (length xs)
         \<and> fileTypes ((resume env (length (calls c0)) ^^ length xs) (updateFileTypes (runtime env) (JArr xs) c0))
           = types_upto env (JArr xs) (length xs)
         \<and> calls ((resume env (length (calls c0)) ^^ length xs) (updateFileTypes (runtime env) (JArr xs) c0))
             ! length (calls c0) = None"
proof (cases xs rule: rev_cases)
  case Nil
  then show ?thesis
    by (simp add: updateFileTypes_def advance_def loop_test_def flags_done_def types_upto_def)
next
  case (snoc ys y)
  let ?k = "length (calls c0)"
  let ?c = "(resume env ?k ^^ length ys) (updateFileTypes (runtime env) (JArr xs) c0)"
  have m: "length ys < length xs" "Suc (length ys) = length xs" using snoc by simp_all
  have a: "awaiting env xs (loadingFileTypes c0) ?k (length ys) ?c"
    using funpow_awaiting [OF assms m(1)] .
  have "is_remote (xs ! length ys)" using assms m(1) by auto
  from resume_awaiting(2) [OF a this m(1) m(2)]
  have "resume env ?k ?c = ?c\<lparr>fileTypes := types_upto env (JArr xs) (length xs),
                              loadingFileTypes := flags_done (length xs),
                              calls := (calls ?c)[?k := None]\<rparr>" .
  moreover have "?k < length (calls ?c)" using a by (simp add: awaiting_def)
  moreover have "(resume env ?k ^^ length xs) (updateFileTypes (runtime env) (JArr xs) c0) = resume env ?k ?c"
    using m(2) by (metis funpow.simps(2) o_apply)
  ultimately show ?thesis by simp
qed

lemma advance_only_remote:
  assumes c: "\<forall>i. loadingFileTypes c i = Some True \<longrightarrow>
                 lf0 i = Some True \<or> (i < length xs \<and> is_remote (xs ! i))"
    and k: "k < length (calls c)"
    and p: "pass_files p = JArr xs"
      "\<forall>i. newLoadingStates p i = Some True \<longrightarrow> i < length xs \<and> is_remote (xs ! i)"
  shows "flags_only_remote xs lf0 k (advance rt k p c)"
proof (cases "pass_i p < length xs")
  case False
  then show ?thesis
    using c k p by (simp add: flags_only_remote_def advance_def loop_test_def)
next
  case True
  then have t: "loop_test rt (pass_i p) (pass_files p) = Some True"
    "file_at (pass_files p) (pass_i p) = Some (xs ! pass_i p)"
    using p(1) by (simp_all add: loop_test_def file_at_def)
  show ?thesis
  proof (cases "is_remote (xs ! pass_i p)")
    case r: True
    then obtain f0 where f: "xs ! pass_i p = JStr f0" "\<not> isDataUrl f0"
      by (auto simp: is_remote_def split: json.splits)
    have "advance rt k p c
        = c\<lparr>loadingFileTypes := loadingFileTypes c ++ (newLoadingStates p)(pass_i p \<mapsto> True),
            calls := (calls c)[k := Some (p\<lparr>newLoadingStates := (newLoadingStates p)(pass_i p \<mapsto> True)\<rparr>)]\<rparr>"
      using t f by (simp add: advance_def Let_def)
    then show ?thesis
      using c k p True r
      by (auto simp: flags_only_remote_def map_add_def split: option.splits if_splits)
  next
    case nr: False
    show ?thesis
    proof (cases "xs ! pass_i p")
      case (JStr f0)
      with nr have "isDataUrl f0" by (simp add: is_remote_def)
      with JStr t have "advance rt k p c = c\<lparr>calls := (calls c)[k := Some p]\<rparr>"
        by (simp add: advance_def)
      then show ?thesis
        using c k p by (simp add: flags_only_remote_def)
    qed (use t c k p in \<open>simp_all add: flags_only_remote_def advance_def\<close>)
  qed
qed

lemma start_only_remote:
  "flags_only_remote xs (loadingFileTypes c0) (length (calls c0))
     (updateFileTypes (runtime env) (JArr xs) c0)"
proof -
  have "flags_only_remote xs (loadingFileTypes c0) (length (calls c0))
     (advance (runtime env) (length (calls c0))
        \<lparr>pass_files = JArr xs, pass_i = 0, newFileTypes = Map.empty, newLoadingStates = Map.empty\<rparr>
        (c0\<lparr>calls := calls c0 @ [None]\<rparr>))"
    by (rule advance_only_remote) simp_all
  then show ?thesis by (simp add: updateFileTypes_def)
qed

lemma resume_only_remote:
  assumes "flags_only_remote xs lf0 k c"
  shows "flags_only_remote xs lf0 k (resume env k c)"
proof (cases "calls c ! k")
  case None
  with assms show ?thesis by (simp add: resume_def)
next
  case (Some p)
  with assms have p: "pass_files p = JArr xs"
    "\<forall>i. newLoadingStates p i = Some True \<longrightarrow> i < length xs \<and> is_remote (xs ! i)"
    by (simp_all add: flags_only_remote_def)
  from assms have c: "\<forall>i. loadingFileTypes c i = Some True \<longrightarrow>
                 lf0 i = Some True \<or> (i < length xs \<and> is_remote (xs ! i))"
    and k: "k < length (calls c)"
    by (simp_all add: flags_only_remote_def)
  show ?thesis
  proof (cases "file_at (pass_files p) (pass_i p)")
    case None
    with Some k assms show ?thesis by (simp add: resume_def)
  next
    case fa: (Some x)
    show ?thesis
    proof (cases x)
      case (JStr f0)
      let ?q = "p\<lparr>newFileTypes := (newFileTypes p)(pass_i p \<mapsto> fst (determineFileType env f0)),
                  newLoadingStates := (newLoadingStates p)(pass_i p \<mapsto> False),
                  pass_i := pass_i p + 1\<rparr>"
      have r: "resume env k c = advance (runtime env) k ?q c"
        using Some fa JStr k by (simp add: resume_def)
      have "flags_only_remote xs lf0 k (advance (runtime env) k ?q c)"
        using c k p by (intro advance_only_remote) (auto split: if_splits)
      with r show ?thesis by simp
    qed (use Some fa k assms in \<open>simp_all add: resume_def\<close>)
  qed
qed

lemma funpow_only_remote:
  "flags_only_remote xs (loadingFileTypes c0) (length (calls c0))
     ((resume env (length (calls c0)) ^^ j) (updateFileTypes (runtime env) (JArr xs) c0))"
  by (induction j) (simp_all add: start_only_remote resume_only_remote)

lemma inline_not_remote: "is_inline x \<Longrightarrow> \<not> is_remote x"
  by (auto simp: is_inline_def is_remote_def split: json.splits)

section \<open>Claims on the sequencer\<close>

lemma trace_during:
  assumes "\<forall>x \<in> set xs. is_remote x" and "\<forall>n. loadingFileTypes c0 n \<noteq> Some True"
    and "m < length xs"
  shows "loadingFileTypes
         (trace env (length (calls c0)) (length xs) (updateFileTypes (runtime env) (JArr xs) c0) ! m) i = Some True
       \<longleftrightarrow> i = m"
proof -
  have "awaiting env xs (loadingFileTypes c0) (length (calls c0)) m
         ((resume env (length (calls c0)) ^^ m) (updateFileTypes (runtime env) (JArr xs) c0))"
    using assms(1,3) by (rule funpow_awaiting)
  then have "loadingFileTypes
       (trace env (length (calls c0)) (length xs) (updateFileTypes (runtime env) (JArr xs) c0) ! m)
      = loadingFileTypes c0 ++ flags_at m"
    using assms(3) by (simp add: trace_nth awaiting_def)
  then show ?thesis
    using assms(2) by (auto simp: map_add_def flags_at_def split: option.splits if_splits)
qed

lemma trace_ended:
  assumes "\<forall>x \<in> set xs. is_remote x"
  shows "loadingFileTypes
         (last (trace env (length (calls c0)) (length xs) (updateFileTypes (runtime env) (JArr xs) c0)))
        = (\<lambda>i. if i < length xs then Some False else None)"
    and "calls (last (trace env (length (calls c0)) (length xs) (updateFileTypes (runtime env) (JArr xs) c0)))
          ! length (calls c0) = None"
  using funpow_finished [OF assms, of env c0] by (simp_all add: trace_last flags_done_def)

lemma trace_one:
  assumes "\<forall>x \<in> set xs. is_remote x" and "\<forall>n. loadingFileTypes c0 n \<noteq> Some True"
    and "m \<le> length xs"
    and "loadingFileTypes
           (trace env (length (calls c0)) (length xs) (updateFileTypes (runtime env) (JArr xs) c0) ! m) i = Some True"
    and "loadingFileTypes
           (trace env (length (calls c0)) (length xs) (updateFileTypes (runtime env) (JArr xs) c0) ! m) j = Some True"
  shows "i = j"
proof (cases "m < length xs")
  case True
  with trace_during [OF assms(1,2)] assms(4,5) show ?thesis by simp
next
  case False
  with assms(3) have m: "m = length xs" by simp
  have "trace env (length (calls c0)) (length xs) (updateFileTypes (runtime env) (JArr xs) c0) ! m
      = last (trace env (length (calls c0)) (length xs) (updateFileTypes (runtime env) (JArr xs) c0))"
    by (simp add: m trace_nth trace_last)
  with trace_ended(1) [OF assms(1), of env c0] assms(4) show ?thesis
    by (simp split: if_splits)
qed

lemma trace_inline:
  assumes "m \<le> length xs" and "i < length xs" and "is_inline (xs ! i)"
    and "loadingFileTypes c0 i \<noteq> Some True"
  shows "loadingFileTypes
         (trace env (length (calls c0)) (length xs) (updateFileTypes (runtime env) (JArr xs) c0) ! m) i
        \<noteq> Some True"
proof -
  have "flags_only_remote xs (loadingFileTypes c0) (length (calls c0))
      ((resume env (length (calls c0)) ^^ m) (updateFileTypes (runtime env) (JArr xs) c0))"
    by (rule funpow_only_remote)
  then show ?thesis
    using assms inline_not_remote [of "xs ! i"]
    by (auto simp: trace_nth flags_only_remote_def)
qed

lemma example_types:
  "fst (determineFileType example_env ''/a.png'') = ''image/png''"
  "fst (determineFileType example_env ''/b.mp3'') = ''audio/mpeg''"
  by (simp_all add: determineFileType_def getContentTypeFromServer_def isDataUrl_def
      example_urls) (simp_all add: example_env_def)

lemma example_runtime: "runtime example_env = int_runtime"
  by (simp add: example_env_def)

lemma decoded_two_files:
  "decoded_files example_env (Some two_file_attributes)
     = Returns (JArr [JStr ''/a.png'', JStr ''/b.mp3''])"
proof -
  have "parseJSONString int_runtime 10000
        (JStr (''['' @ quote ''/a.png'' @ '','' @ quote ''/b.mp3'' @ '']''))
      = Returns (JArr [JStr ''/a.png'', JStr ''/b.mp3''])"
    by code_simp
  then show ?thesis
    by (simp add: decoded_files_def two_file_attributes_def example_env_def)
qed

lemma two_file_panel:
  "create example_env False False (Some two_file_attributes) =
     \<lparr>is_open = False, disabled = False, attributes = Some two_file_attributes,
      fileTypes = Map.empty, loadingFileTypes = [0 \<mapsto> True],
      onChange_calls = [False],
      updateFileTypes_calls = [JArr [JStr ''/a.png'', JStr ''/b.mp3'']],
      calls = [Some \<lparr>pass_files = JArr [JStr ''/a.png'', JStr ''/b.mp3''], pass_i = 0,
                     newFileTypes = Map.empty, newLoadingStates = [0 \<mapsto> True]\<rparr>]\<rparr>"
proof -
  have d: "attr_done two_file_attributes = Some ''true''"
    by (simp add: two_file_attributes_def)
  show ?thesis
    by (simp add: create_def update_def reactive_onChange_def reactive_files_def d
        decoded_two_files example_runtime updateFileTypes_def advance_def loop_test_def
        file_at_def isDataUrl_def Let_def)
qed

lemma two_file_panel_second_probe:
  "resume example_env 0 (create example_env False False (Some two_file_attributes)) =
     \<lparr>is_open = False, disabled = False, attributes = Some two_file_attributes,
      fileTypes = Map.empty, loadingFileTypes = [0 \<mapsto> False, 1 \<mapsto> True],
      onChange_calls = [False],
      updateFileTypes_calls = [JArr [JStr ''/a.png'', JStr ''/b.mp3'']],
      calls = [Some \<lparr>pass_files = JArr [JStr ''/a.png'', JStr ''/b.mp3''], pass_i = 1,
                     newFileTypes = [0 \<mapsto> ''image/png''],
                     newLoadingStates = [0 \<mapsto> False, 1 \<mapsto> True]\<rparr>]\<rparr>"
  unfolding two_file_panel
  by (simp add: resume_def advance_def loop_test_def file_at_def example_types example_runtime
      isDataUrl_def Let_def)

lemma two_file_panel_overlap:
  "set_attributes example_env (Some two_file_attributes)
     (resume example_env 0 (create example_env False False (Some two_file_attributes))) =
     \<lparr>is_open = False, disabled = False, attributes = Some two_file_attributes,
      fileTypes = Map.empty, loadingFileTypes = [1 \<mapsto> True, 0 \<mapsto> True],
      onChange_calls = [False],
      updateFileTypes_calls = [JArr [JStr ''/a.png'', JStr ''/b.mp3''],
                               JArr [JStr ''/a.png'', JStr ''/b.mp3'']],
      calls = [Some \<lparr>pass_files = JArr [JStr ''/a.png'', JStr ''/b.mp3''], pass_i = 1,
                     newFileTypes = [0 \<mapsto> ''image/png''],
                     newLoadingStates = [0 \<mapsto> False, 1 \<mapsto> True]\<rparr>,
               Some \<lparr>pass_files = JArr [JStr ''/a.png'', JStr ''/b.mp3''], pass_i = 0,
                     newFileTypes = Map.empty, newLoadingStates = [0 \<mapsto> True]\<rparr>]\<rparr>"
proof -
  have d: "attr_done two_file_attributes = Some ''true''"
    by (simp add: two_file_attributes_def)
  show ?thesis
    unfolding two_file_panel_second_probe
    by (simp add: set_attributes_def update_def reactive_files_def d
        decoded_two_files example_runtime updateFileTypes_def advance_def loop_test_def
        file_at_def isDataUrl_def Let_def)
qed

text \<open>
  C2, as stated: while the sequencer resolves a list of remote references, at most one
  index has its flag set at any instant, the items being probed one after the other.
  It fails when the attributes are assigned again while a call is in flight, even with
  the same list: the panel is created with the remote references \<open>/a.png\<close> and
  \<open>/b.mp3\<close>, the first probe resolves and the call waits for the second, and then
  the attributes are set once more. The new call overlays its flag for index 0 on the
  flag of index 1: both flags are set, and two probes are in flight.
\<close>

theorem sequencer_overlap_counterexample:
  "decoded_files example_env (Some two_file_attributes)
     = Returns (JArr [JStr ''/a.png'', JStr ''/b.mp3''])
   \<and> is_remote (JStr ''/a.png'' :: int json) \<and> is_remote (JStr ''/b.mp3'' :: int json)
   \<and> loadingFileTypes
        (steps example_env [Resolved 0, SetAttributes (Some two_file_attributes)]
           (create example_env False False (Some two_file_attributes))) 0 = Some True
   \<and> loadingFileTypes
        (steps example_env [Resolved 0, SetAttributes (Some two_file_attributes)]
           (create example_env False False (Some two_file_attributes))) 1 = Some True
   \<and> map (map_option pass_i)
        (calls (steps example_env [Resolved 0, SetAttributes (Some two_file_attributes)]
           (create example_env False False (Some two_file_attributes))))
       = [Some 1, Some 0]"
proof -
  have s: "steps example_env [Resolved 0, SetAttributes (Some two_file_attributes)]
           (create example_env False False (Some two_file_attributes))
      = set_attributes example_env (Some two_file_attributes)
          (resume example_env 0 (create example_env False False (Some two_file_attributes)))"
    by simp
  show ?thesis
    unfolding s two_file_panel_overlap
    by (simp add: decoded_two_files is_remote_def isDataUrl_def)
qed

text \<open>
  C2, amended: while one call of \<open>updateFileTypes\<close> resolves a list of remote
  references and nothing else happens to the panel (no other call goes on and the
  attributes are not assigned), started on a panel that has no flag set, the flag of
  index \<open>m\<close> is the one flag set while the probe of index \<open>m\<close> is awaited: it was
  set before that probe and is cleared before the probe of the next index, so at most
  one flag is set in every state of the run. When the call has ended (after one
  continuation per item) every index of the list has its flag false. For a list of any
  content, under the same conditions, the flag of an inline-data reference is never set.
\<close>

theorem sequencer_one_at_a_time:
  "(\<forall>env xs c0 m i.
      (\<forall>x \<in> set xs. is_remote x) \<and> (\<forall>n. loadingFileTypes c0 n \<noteq> Some True) \<and> m < length xs \<longrightarrow>
      (loadingFileTypes
         (trace env (length (calls c0)) (length xs) (updateFileTypes (runtime env) (JArr xs) c0) ! m) i = Some True
       \<longleftrightarrow> i = m))
   \<and> (\<forall>env xs c0 m i j.
      (\<forall>x \<in> set xs. is_remote x) \<and> (\<forall>n. loadingFileTypes c0 n \<noteq> Some True) \<and> m \<le> length xs
      \<and> loadingFileTypes
           (trace env (length (calls c0)) (length xs) (updateFileTypes (runtime env) (JArr xs) c0) ! m) i = Some True
      \<and> loadingFileTypes
           (trace env (length (calls c0)) (length xs) (updateFileTypes (runtime env) (JArr xs) c0) ! m) j = Some True
      \<longrightarrow> i = j)
   \<and> (\<forall>env xs c0.
      (\<forall>x \<in> set xs. is_remote x) \<longrightarrow>
      loadingFileTypes
         (last (trace env (length (calls c0)) (length xs) (updateFileTypes (runtime env) (JArr xs) c0)))
        = (\<lambda>i. if i < length xs then Some False else None)
      \<and> calls (last (trace env (length (calls c0)) (length xs) (updateFileTypes (runtime env) (JArr xs) c0)))
          ! length (calls c0) = None)
   \<and> (\<forall>env xs c0 m i.
      m \<le> length xs \<and> i < length xs \<and> is_inline (xs ! i) \<and> loadingFileTypes c0 i \<noteq> Some True \<longrightarrow>
      loadingFileTypes
         (trace env (length (calls c0)) (length xs) (updateFileTypes (runtime env) (JArr xs) c0) ! m) i
        \<noteq> Some True)"
  apply (intro conjI allI impI)
  subgoal by (intro trace_during) simp_all
  subgoal for env xs c0 m i j using trace_one [of xs c0 m env i j] by blast
  subgoal by (rule trace_ended(1))
  subgoal by (rule trace_ended(2))
  subgoal by (intro trace_inline) simp_all
  done

theorem sequencer_one_at_a_time_witness:
  "loadingFileTypes
      (trace example_env (length (calls (create example_env False False None))) (length ([JStr ''/a.png'', JStr ''/b.mp3''] :: int json list))
         (updateFileTypes (runtime example_env) (JArr [JStr ''/a.png'', JStr ''/b.mp3'']) (create example_env False False None)) ! 0) 0
     = Some True
   \<and> loadingFileTypes
      (trace example_env (length (calls (create example_env False False None))) (length ([JStr ''/a.png'', JStr ''/b.mp3''] :: int json list))
         (updateFileTypes (runtime example_env) (JArr [JStr ''/a.png'', JStr ''/b.mp3'']) (create example_env False False None)) ! 1) 1
     = Some True
   \<and> loadingFileTypes
      (trace example_env (length (calls (create example_env False False None))) (length ([JStr ''/a.png'', JStr ''/b.mp3''] :: int json list))
         (updateFileTypes (runtime example_env) (JArr [JStr ''/a.png'', JStr ''/b.mp3'']) (create example_env False False None)) ! 1) 0
     \<noteq> Some True
   \<and> loadingFileTypes
      (last (trace example_env (length (calls (create example_env False False None))) (length ([JStr ''/a.png'', JStr ''/b.mp3''] :: int json list))
         (updateFileTypes (runtime example_env) (JArr [JStr ''/a.png'', JStr ''/b.mp3'']) (create example_env False False None)))) 1
     = Some False
   \<and> calls
      (last (trace example_env (length (calls (create example_env False False None))) (length ([JStr ''/a.png'', JStr ''/b.mp3''] :: int json list))
         (updateFileTypes (runtime example_env) (JArr [JStr ''/a.png'', JStr ''/b.mp3'']) (create example_env False False None))))
       ! length (calls (create example_env False False None))
     = None
   \<and> loadingFileTypes
      (trace example_env (length (calls (create example_env False False None)))
         (length ([JStr ''data:text/plain;base64,aGVsbG8='', JStr ''/a.png''] :: int json list))
         (updateFileTypes (runtime example_env) (JArr [JStr ''data:text/plain;base64,aGVsbG8='', JStr ''/a.png''])
            (create example_env False False None)) ! 1) 0
     \<noteq> Some True"
proof -
  let ?c0 = "create example_env False False None"
  let ?xs = "[JStr ''/a.png'', JStr ''/b.mp3''] :: int json list"
  let ?ys = "[JStr ''data:text/plain;base64,aGVsbG8='', JStr ''/a.png''] :: int json list"
  note t = sequencer_one_at_a_time
  have r: "\<forall>x \<in> set ?xs. is_remote x"
    by (simp add: is_remote_def isDataUrl_def)
  have idle: "\<forall>n. loadingFileTypes ?c0 n \<noteq> Some True"
    by (simp add: create_def update_def reactive_onChange_def reactive_files_def)
  have 1: "loadingFileTypes (trace example_env (length (calls ?c0)) (length ?xs)
             (updateFileTypes (runtime example_env) (JArr ?xs) ?c0) ! 0) 0 = Some True"
    using t [THEN conjunct1, rule_format, where xs = ?xs and ?c0.0 = ?c0 and m = 0 and i = 0
        and env = example_env] r idle
    by simp
  have 2: "loadingFileTypes (trace example_env (length (calls ?c0)) (length ?xs)
             (updateFileTypes (runtime example_env) (JArr ?xs) ?c0) ! 1) 1 = Some True"
    using t [THEN conjunct1, rule_format, where xs = ?xs and ?c0.0 = ?c0 and m = 1 and i = 1
        and env = example_env] r idle
    by simp
  have 3: "loadingFileTypes (trace example_env (length (calls ?c0)) (length ?xs)
             (updateFileTypes (runtime example_env) (JArr ?xs) ?c0) ! 1) 0 \<noteq> Some True"
    using t [THEN conjunct1, rule_format, where xs = ?xs and ?c0.0 = ?c0 and m = 1 and i = 0
        and env = example_env] r idle
    by simp
  have e: "loadingFileTypes (last (trace example_env (length (calls ?c0)) (length ?xs)
             (updateFileTypes (runtime example_env) (JArr ?xs) ?c0))) = (\<lambda>i. if i < length ?xs then Some False else None)
        \<and> calls (last (trace example_env (length (calls ?c0)) (length ?xs)
             (updateFileTypes (runtime example_env) (JArr ?xs) ?c0))) ! length (calls ?c0) = None"
    using t [THEN conjunct2, THEN conjunct2, THEN conjunct1, rule_format,
        where xs = ?xs and ?c0.0 = ?c0 and env = example_env] r
    by blast
  have 4: "loadingFileTypes (last (trace example_env (length (calls ?c0)) (length ?xs)
             (updateFileTypes (runtime example_env) (JArr ?xs) ?c0))) 1 = Some False"
    using e by simp
  have i: "(1::nat) \<le> length ?ys \<and> (0::nat) < length ?ys \<and> is_inline (?ys ! 0)
      \<and> loadingFileTypes ?c0 0 \<noteq> Some True"
    using idle by (simp add: is_inline_def isDataUrl_def)
  have 5: "loadingFileTypes (trace example_env (length (calls ?c0)) (length ?ys)
             (updateFileTypes (runtime example_env) (JArr ?ys) ?c0) ! 1) 0 \<noteq> Some True"
    using t [THEN conjunct2, THEN conjunct2, THEN conjunct2, rule_format,
        where xs = ?ys and ?c0.0 = ?c0 and m = 1 and i = 0 and env = example_env] i
    by blast
  note 6 = e [THEN conjunct2]
  show ?thesis
    by (intro conjI 1 2 3 4 5 6)
qed

section \<open>Claims on overlapping calls of the sequencer\<close>































end
